theory Spec2Isabelle
  imports Complex_Main
begin

section \<open>Planet simulation: the embedding of \<open>Planets.py\<close>\<close>

text \<open>
  Python floats are read as exact reals (\<^typ>\<open>real\<close>), a float literal as the decimal
  it is written as, Python's unbounded integers as \<^typ>\<open>int\<close>. Rounding, overflow and
  not-a-number are outside this reading. Every place where the interpreter can raise
  is a branch that returns the exception as a value. Where the order of the rounded
  operations decides a property (the symmetry of the pairwise force), the pass of the
  force loop is also given as the doubles compute it, \<open>force_step_fl\<close>.
\<close>

subsection \<open>Exceptions\<close>

datatype error = ZeroDivisionError | ValueError | TypeError

text \<open>\<open>a / b\<close> on numbers: raises when the divisor is zero.\<close>

definition truediv :: "real \<Rightarrow> real \<Rightarrow> error + real" where
  "truediv a b = (if b = 0 then Inl ZeroDivisionError else Inr (a / b))"

text \<open>\<open>math.sqrt\<close>: raises on a negative argument.\<close>

definition math_sqrt :: "real \<Rightarrow> error + real" where
  "math_sqrt a = (if a < 0 then Inl ValueError else Inr (sqrt a))"

text \<open>\<open>int(v)\<close> on a float: truncation towards zero.\<close>

definition py_int :: "real \<Rightarrow> int" where
  "py_int v = (if v < 0 then \<lceil>v\<rceil> else \<lfloor>v\<rfloor>)"

subsection \<open>Simulation parameters (lines 7 and 19 to 24)\<close>

definition WIDTH :: int where "WIDTH = 900"
definition HEIGHT :: int where "HEIGHT = 600"

definition G :: real where "G = 66743 / 10 ^ 15"
definition SCALE :: real where "SCALE = 25 / 10 ^ 12"
definition ZOOM_SCALE :: real where "ZOOM_SCALE = 1 / 10 ^ 10"
definition DT :: real where "DT = 3600"

subsection \<open>class Body\<close>

text \<open>
  The attributes \<open>x\<close>, \<open>y\<close>, \<open>vx\<close>, \<open>vy\<close> carry the prefix \<open>body_\<close>, the others
  keep their names.
\<close>

record body =
  body_x :: real
  body_y :: real
  body_vx :: real
  body_vy :: real
  mass :: real
  radius :: int
  color :: "int \<times> int \<times> int"
  name :: string
  trail :: "(int \<times> int) list"

text \<open>\<open>Body.__init__\<close>: the trail starts empty.\<close>

definition Body ::
  "real \<Rightarrow> real \<Rightarrow> real \<Rightarrow> real \<Rightarrow> real \<Rightarrow> int \<Rightarrow> int \<times> int \<times> int \<Rightarrow> string \<Rightarrow> body" where
  "Body x0 y0 vx0 vy0 m rad col nm =
     \<lparr>body_x = x0, body_y = y0, body_vx = vx0, body_vy = vy0,
      mass = m, radius = rad, color = col, name = nm, trail = []\<rparr>"

subsection \<open>The projection to screen coordinates (lines 80 to 82 and 88 to 91)\<close>

text \<open>
  The globals \<open>zoomed\<close>, \<open>camera_x\<close>, \<open>camera_y\<close> are arguments. The same three lines
  stand in \<open>update_position\<close> and in \<open>draw\<close>.
\<close>

definition current_scale :: "bool \<Rightarrow> real" where
  "current_scale zm = (if zm then ZOOM_SCALE else SCALE)"

definition screen_pos :: "bool \<Rightarrow> int \<Rightarrow> int \<Rightarrow> real \<Rightarrow> real \<Rightarrow> int \<times> int" where
  "screen_pos zm cam_x cam_y wx wy =
     (py_int (wx * current_scale zm + of_int (WIDTH div 2) - of_int cam_x),
      py_int (wy * current_scale zm + of_int (HEIGHT div 2) - of_int cam_y))"

subsection \<open>Body.update_position\<close>

text \<open>
  One pass of the loop body of lines 59 to 67 for one \<open>other\<close> that is not \<open>self\<close>:
  the force components \<open>(fx, fy)\<close> before the pass give those after it.
\<close>

definition force_step :: "body \<Rightarrow> body \<Rightarrow> real \<times> real \<Rightarrow> error + real \<times> real" where
  "force_step self other acc =
     (let dx = body_x other - body_x self;
          dy = body_y other - body_y self;
          r = sqrt (dx ^ 2 + dy ^ 2)
      in if r > 1000 then
           (case truediv (G * mass self * mass other) (r ^ 2) of
              Inl e \<Rightarrow> Inl e
            | Inr f \<Rightarrow>
               (case truediv (f * dx) r of
                  Inl e \<Rightarrow> Inl e
                | Inr gx \<Rightarrow>
                   (case truediv (f * dy) r of
                      Inl e \<Rightarrow> Inl e
                    | Inr gy \<Rightarrow> Inr (fst acc + gx, snd acc + gy))))
         else Inr acc)"

text \<open>
  The loop \<open>for other in bodies\<close>. An object is the same as \<open>self\<close> when it stands at
  the same place of the list (the list holds ten objects created one by one, and no
  \<open>__eq__\<close> is defined): \<open>i\<close> is the index of \<open>self\<close>, \<open>j\<close> the index of the head of
  the rest of the list.
\<close>

fun force_loop :: "body \<Rightarrow> nat \<Rightarrow> nat \<Rightarrow> body list \<Rightarrow> real \<times> real \<Rightarrow> error + real \<times> real" where
  "force_loop self i j [] acc = Inr acc"
| "force_loop self i j (other # rest) acc =
     (if j \<noteq> i then
        (case force_step self other acc of
           Inl e \<Rightarrow> Inl e
         | Inr acc' \<Rightarrow> force_loop self i (Suc j) rest acc')
      else force_loop self i (Suc j) rest acc)"

text \<open>Lines 70 to 77: the velocity first, then the position from the new velocity.\<close>

definition integrate :: "body \<Rightarrow> real \<Rightarrow> real \<Rightarrow> body" where
  "integrate self ax ay =
     (let vx1 = body_vx self + ax * DT;
          vy1 = body_vy self + ay * DT
      in self\<lparr>body_vx := vx1, body_vy := vy1,
              body_x := body_x self + vx1 * DT,
              body_y := body_y self + vy1 * DT\<rparr>)"

text \<open>Lines 83 to 85: append, then drop the head when the list is longer than 200.\<close>

definition trail_append :: "(int \<times> int) list \<Rightarrow> int \<times> int \<Rightarrow> (int \<times> int) list" where
  "trail_append tr p =
     (let tr1 = tr @ [p] in if length tr1 > 200 then tl tr1 else tr1)"

text \<open>
  The whole method, for the object at index \<open>i\<close> of the list \<open>bs\<close> it is called
  with; the result is the state of that object after the call.
\<close>

definition update_position :: "bool \<Rightarrow> int \<Rightarrow> int \<Rightarrow> nat \<Rightarrow> body list \<Rightarrow> error + body" where
  "update_position zm cam_x cam_y i bs =
     (let self = bs ! i in
      case force_loop self i 0 bs (0, 0) of
        Inl e \<Rightarrow> Inl e
      | Inr (fx, fy) \<Rightarrow>
         (case truediv fx (mass self) of
            Inl e \<Rightarrow> Inl e
          | Inr ax \<Rightarrow>
             (case truediv fy (mass self) of
                Inl e \<Rightarrow> Inl e
              | Inr ay \<Rightarrow>
                 (let b1 = integrate self ax ay
                  in Inr (b1\<lparr>trail := trail_append (trail b1)
                               (screen_pos zm cam_x cam_y (body_x b1) (body_y b1))\<rparr>)))))"

subsection \<open>The orbit initializer (lines 113 to 137)\<close>

definition planets_data :: "(real \<times> real \<times> real \<times> int \<times> (int \<times> int \<times> int) \<times> string) list" where
  "planets_data =
     [(0, 0, 1989 * 10 ^ 27, 8, (255, 255, 0), ''Sun''),
      (5791 * 10 ^ 7, 2056 / 10 ^ 4, 3301 * 10 ^ 20, 2, (169, 169, 169), ''Mercury''),
      (1082 * 10 ^ 8, 67 / 10 ^ 4, 4867 * 10 ^ 21, 3, (255, 165, 0), ''Venus''),
      (1496 * 10 ^ 8, 167 / 10 ^ 4, 5972 * 10 ^ 21, 4, (0, 100, 255), ''Earth''),
      (2279 * 10 ^ 8, 934 / 10 ^ 4, 639 * 10 ^ 21, 3, (255, 100, 0), ''Mars''),
      (7785 * 10 ^ 8, 489 / 10 ^ 4, 1898 * 10 ^ 24, 6, (200, 150, 100), ''Jupiter''),
      (1429 * 10 ^ 9, 565 / 10 ^ 4, 5683 * 10 ^ 23, 5, (250, 200, 100), ''Saturn''),
      (2871 * 10 ^ 9, 463 / 10 ^ 4, 8681 * 10 ^ 22, 4, (100, 200, 255), ''Uranus''),
      (4498 * 10 ^ 9, 86 / 10 ^ 4, 1024 * 10 ^ 23, 4, (0, 0, 255), ''Neptune''),
      (5906 * 10 ^ 9, 2488 / 10 ^ 4, 1309 * 10 ^ 19, 2, (150, 100, 50), ''Pluto'')]"

definition default_central_mass :: real where
  "default_central_mass = 1989 * 10 ^ 27"

definition get_initial_conditions ::
  "real \<Rightarrow> real \<Rightarrow> real \<Rightarrow> int \<Rightarrow> int \<times> int \<times> int \<Rightarrow> string \<Rightarrow> real \<Rightarrow> error + body" where
  "get_initial_conditions a e m rad col nm central_mass =
     (let r = a * (1 - e); x0 = r; y0 = 0 in
      if a = 0 then Inr (Body 0 0 0 0 m rad col nm)
      else
        (case truediv (G * central_mass * (1 + e)) (a * (1 - e)) of
           Inl err \<Rightarrow> Inl err
         | Inr q \<Rightarrow>
            (case math_sqrt q of
               Inl err \<Rightarrow> Inl err
             | Inr v \<Rightarrow> Inr (Body x0 y0 0 v m rad col nm))))"

fun init_bodies ::
  "(real \<times> real \<times> real \<times> int \<times> (int \<times> int \<times> int) \<times> string) list \<Rightarrow> error + body list" where
  "init_bodies [] = Inr []"
| "init_bodies ((a, e, m, rad, col, nm) # rest) =
     (case get_initial_conditions a e m rad col nm default_central_mass of
        Inl err \<Rightarrow> Inl err
      | Inr b \<Rightarrow>
         (case init_bodies rest of
            Inl err \<Rightarrow> Inl err
          | Inr bs \<Rightarrow> Inr (b # bs)))"

subsection \<open>The global state and the events\<close>

record sim =
  bodies :: "body list"
  zoomed :: bool
  camera_x :: int
  camera_y :: int
  panning :: bool
  last_mouse_pos :: "(int \<times> int) option"
  running :: bool
  trail_reset :: bool

datatype key = K_z | K_LEFT | K_RIGHT | K_UP | K_DOWN | K_other

datatype event =
    QUIT
  | KEYDOWN key
  | MOUSEBUTTONDOWN int "int \<times> int"
  | MOUSEBUTTONUP int "int \<times> int"
  | MOUSEMOTION "int \<times> int"
  | OTHER

text \<open>
  \<open>pygame.Rect(left, top, width, height)\<close> and its \<open>collidepoint\<close>: the left and top
  edges are inside, the right and bottom edges are not.
\<close>

definition reset_button :: "int \<times> int \<times> int \<times> int" where
  "reset_button = (10, 10, 100, 30)"

fun collidepoint :: "int \<times> int \<times> int \<times> int \<Rightarrow> int \<times> int \<Rightarrow> bool" where
  "collidepoint (rx, ry, rw, rh) (px, py) =
     (rx \<le> px \<and> px < rx + rw \<and> ry \<le> py \<and> py < ry + rh)"

text \<open>Lines 139 to 144.\<close>

definition reset_simulation :: "sim \<Rightarrow> error + sim" where
  "reset_simulation s =
     (case init_bodies planets_data of
        Inl err \<Rightarrow> Inl err
      | Inr bs \<Rightarrow> Inr (s\<lparr>bodies := bs, camera_x := 0, camera_y := 0, zoomed := False\<rparr>))"

text \<open>
  Lines 158 to 192, for one event. Subscripting \<open>last_mouse_pos\<close> while it is \<open>None\<close>
  raises \<open>TypeError\<close>.
\<close>

fun handle_event :: "event \<Rightarrow> sim \<Rightarrow> error + sim" where
  "handle_event QUIT s = Inr (s\<lparr>running := False\<rparr>)"
| "handle_event (KEYDOWN k) s =
     (case k of
        K_z \<Rightarrow> Inr (s\<lparr>zoomed := \<not> zoomed s, trail_reset := True\<rparr>)
      | K_LEFT \<Rightarrow> Inr (s\<lparr>camera_x := camera_x s - 50, trail_reset := True\<rparr>)
      | K_RIGHT \<Rightarrow> Inr (s\<lparr>camera_x := camera_x s + 50, trail_reset := True\<rparr>)
      | K_UP \<Rightarrow> Inr (s\<lparr>camera_y := camera_y s - 50, trail_reset := True\<rparr>)
      | K_DOWN \<Rightarrow> Inr (s\<lparr>camera_y := camera_y s + 50, trail_reset := True\<rparr>)
      | K_other \<Rightarrow> Inr s)"
| "handle_event (MOUSEBUTTONDOWN button pos) s =
     (if button = 1 then
        (if collidepoint reset_button pos then
           (case reset_simulation s of
              Inl err \<Rightarrow> Inl err
            | Inr s1 \<Rightarrow> Inr (s1\<lparr>trail_reset := True\<rparr>))
         else Inr (s\<lparr>panning := True, last_mouse_pos := Some pos\<rparr>))
      else Inr s)"
| "handle_event (MOUSEBUTTONUP button pos) s =
     (if button = 1 then Inr (s\<lparr>panning := False\<rparr>) else Inr s)"
| "handle_event (MOUSEMOTION current_pos) s =
     (if panning s then
        (case last_mouse_pos s of
           None \<Rightarrow> Inl TypeError
         | Some lp \<Rightarrow>
            Inr (s\<lparr>camera_x := camera_x s + (fst lp - fst current_pos),
                   camera_y := camera_y s + (snd lp - snd current_pos),
                   last_mouse_pos := Some current_pos,
                   trail_reset := True\<rparr>))
      else Inr s)"
| "handle_event OTHER s = Inr s"

text \<open>The loop \<open>for event in pygame.event.get()\<close>.\<close>

fun handle_events :: "event list \<Rightarrow> sim \<Rightarrow> error + sim" where
  "handle_events [] s = Inr s"
| "handle_events (ev # evs) s =
     (case handle_event ev s of
        Inl err \<Rightarrow> Inl err
      | Inr s1 \<Rightarrow> handle_events evs s1)"

subsection \<open>The frame (lines 206 to 212) and the main loop\<close>

text \<open>
  One pass of \<open>for body in bodies\<close> for the object at index \<open>i\<close>: the method mutates the
  object, so the list holds its new state from then on. \<open>draw\<close> changes no state.
\<close>

definition loop_body :: "nat \<Rightarrow> sim \<Rightarrow> error + sim" where
  "loop_body i s =
     (case update_position (zoomed s) (camera_x s) (camera_y s) i (bodies s) of
        Inl err \<Rightarrow> Inl err
      | Inr b \<Rightarrow>
         Inr (s\<lparr>bodies := (bodies s)[i := (if trail_reset s then b\<lparr>trail := []\<rparr> else b)]\<rparr>))"

text \<open>The passes in the order of a list of indices; the source's order is \<open>[0..<n]\<close>.\<close>

fun bodies_loop :: "nat list \<Rightarrow> sim \<Rightarrow> error + sim" where
  "bodies_loop [] s = Inr s"
| "bodies_loop (i # rest) s =
     (case loop_body i s of
        Inl err \<Rightarrow> Inl err
      | Inr s1 \<Rightarrow> bodies_loop rest s1)"

definition frame :: "event list \<Rightarrow> sim \<Rightarrow> error + sim" where
  "frame evs s =
     (case handle_events evs s of
        Inl err \<Rightarrow> Inl err
      | Inr s1 \<Rightarrow>
         (case bodies_loop [0..<length (bodies s1)] s1 of
            Inl err \<Rightarrow> Inl err
          | Inr s2 \<Rightarrow> Inr (s2\<lparr>trail_reset := False\<rparr>)))"

text \<open>
  \<open>while running\<close>: the input is the list of the event queues that the frames find, one
  queue for each frame.
\<close>

fun main_loop :: "event list list \<Rightarrow> sim \<Rightarrow> error + sim" where
  "main_loop [] s = Inr s"
| "main_loop (evs # rest) s =
     (if running s then
        (case frame evs s of
           Inl err \<Rightarrow> Inl err
         | Inr s1 \<Rightarrow> main_loop rest s1)
      else Inr s)"

text \<open>The state at line 152, and the script run on the queues of its frames.\<close>

definition initial_sim :: "error + sim" where
  "initial_sim =
     (case init_bodies planets_data of
        Inl err \<Rightarrow> Inl err
      | Inr bs \<Rightarrow>
         Inr \<lparr>bodies = bs, zoomed = False, camera_x = 0, camera_y = 0, panning = False,
              last_mouse_pos = None, running = True, trail_reset = False\<rparr>)"

definition script :: "event list list \<Rightarrow> error + sim" where
  "script fs =
     (case initial_sim of
        Inl err \<Rightarrow> Inl err
      | Inr s0 \<Rightarrow> main_loop fs s0)"

subsection \<open>The pass of the force loop in double precision\<close>

text \<open>
  A Python float is an IEEE 754 binary64 number and every arithmetic operation returns
  the exact result rounded to the nearest double, ties to the even significand.
  \<open>round_even\<close> is that rounding to an integer, \<open>fl\<close> the rounding of a real to 53
  significant bits. The exponent is unbounded here: overflow and subnormal numbers
  are not modelled.
\<close>

definition round_even :: "real \<Rightarrow> int" where
  "round_even v =
     (let n = \<lfloor>v\<rfloor>; d = v - of_int n
      in if d < 1 / 2 then n else if 1 / 2 < d then n + 1 else if even n then n else n + 1)"

definition fl :: "real \<Rightarrow> real" where
  "fl v =
     (if v = 0 then 0
      else (let e = \<lfloor>log 2 \<bar>v\<bar>\<rfloor> - 52
            in of_int (round_even (v / 2 powi e)) * 2 powi e))"

text \<open>
  Lines 60 to 67 with every operation rounded, in the order in which Python evaluates
  them: \<open>G * self.mass * other.mass / (r ** 2)\<close> is \<open>((G * self.mass) * other.mass) / (r ** 2)\<close>
  and \<open>f * dx / r\<close> is \<open>(f * dx) / r\<close>. \<open>G64\<close> is the double of the literal \<open>6.6743e-11\<close>;
  \<open>v ** 2\<close> is the rounded square and \<open>math.sqrt\<close> the rounded square root. The
  attributes of the two bodies are the doubles that the objects hold.
\<close>

definition G64 :: real where
  "G64 = fl G"

definition truediv_fl :: "real \<Rightarrow> real \<Rightarrow> error + real" where
  "truediv_fl a b = (if b = 0 then Inl ZeroDivisionError else Inr (fl (a / b)))"

definition force_step_fl :: "body \<Rightarrow> body \<Rightarrow> real \<times> real \<Rightarrow> error + real \<times> real" where
  "force_step_fl self other acc =
     (let dx = fl (body_x other - body_x self);
          dy = fl (body_y other - body_y self);
          r = fl (sqrt (fl (fl (dx ^ 2) + fl (dy ^ 2))))
      in if r > 1000 then
           (case truediv_fl (fl (fl (G64 * mass self) * mass other)) (fl (r ^ 2)) of
              Inl e \<Rightarrow> Inl e
            | Inr f \<Rightarrow>
               (case truediv_fl (fl (f * dx)) r of
                  Inl e \<Rightarrow> Inl e
                | Inr gx \<Rightarrow>
                   (case truediv_fl (fl (f * dy)) r of
                      Inl e \<Rightarrow> Inl e
                    | Inr gy \<Rightarrow> Inr (fl (fst acc + gx), fl (snd acc + gy)))))
         else Inr acc)"

subsection \<open>Predicates of the statements\<close>

text \<open>A click of the primary button on the reset control.\<close>

fun is_reset_click :: "event \<Rightarrow> bool" where
  "is_reset_click (MOUSEBUTTONDOWN button pos) = (button = 1 \<and> collidepoint reset_button pos)"
| "is_reset_click ev = False"

text \<open>
  A run of frames none of which resets the trails: the loop is entered for every queue
  of the list, and \<open>trail_reset\<close> is still unset when the events of the frame are done.
\<close>

fun quiet_frames :: "event list list \<Rightarrow> sim \<Rightarrow> bool" where
  "quiet_frames [] s = True"
| "quiet_frames (evs # rest) s =
     (running s \<and>
      (case handle_events evs s of Inl err \<Rightarrow> False | Inr s1 \<Rightarrow> \<not> trail_reset s1) \<and>
      (case frame evs s of Inl err \<Rightarrow> False | Inr s2 \<Rightarrow> quiet_frames rest s2))"

section \<open>The projection\<close>

lemma py_int_trunc:
  "\<bar>of_int (py_int v)\<bar> \<le> \<bar>v\<bar> \<and> \<bar>v\<bar> < \<bar>of_int (py_int v) :: real\<bar> + 1
   \<and> 0 \<le> of_int (py_int v) * v"
proof (cases "v < 0")
  case True
  then have c: "py_int v = \<lceil>v\<rceil>" by (simp add: py_int_def)
  have 1: "of_int \<lceil>v\<rceil> \<le> (0::real)" using True by (simp add: ceiling_le_iff)
  have 2: "v \<le> of_int \<lceil>v\<rceil>" by (rule le_of_int_ceiling)
  have 3: "of_int \<lceil>v\<rceil> < v + 1" using ceiling_correct[of v] by linarith
  have 4: "0 \<le> of_int \<lceil>v\<rceil> * v" using 1 True by (simp add: mult_nonpos_nonpos)
  show ?thesis unfolding c using True 1 2 3 4 by simp
next
  case False
  then have c: "py_int v = \<lfloor>v\<rfloor>" by (simp add: py_int_def)
  have 1: "(0::real) \<le> of_int \<lfloor>v\<rfloor>" using False by simp
  have 2: "of_int \<lfloor>v\<rfloor> \<le> v" by (rule of_int_floor_le)
  have 3: "v < of_int \<lfloor>v\<rfloor> + 1" using floor_correct[of v] by linarith
  have 4: "0 \<le> of_int \<lfloor>v\<rfloor> * v" using 1 False by simp
  show ?thesis unfolding c using False 1 2 3 4 by simp
qed

text \<open>
  C2, as the code has it. The screen position of a world point \<open>(wx, wy)\<close> is, in each
  coordinate, the value \<open>w * scale + centre - camera\<close> truncated towards zero (Python's
  \<open>int\<close>), not rounded: the result is the integer of the same sign whose absolute value
  is the largest one not above the absolute value of that number. The centre is the
  constant \<open>(WIDTH // 2, HEIGHT // 2) = (450, 300)\<close>, the scale is \<open>ZOOM_SCALE\<close> when
  \<open>zoomed\<close> is set and \<open>SCALE\<close> otherwise, and \<open>SCALE < ZOOM_SCALE\<close>.
\<close>

theorem screen_pos_trunc:
  "screen_pos zm cam_x cam_y wx wy =
     (py_int (wx * (if zm then ZOOM_SCALE else SCALE) + 450 - of_int cam_x),
      py_int (wy * (if zm then ZOOM_SCALE else SCALE) + 300 - of_int cam_y))
   \<and> \<bar>of_int (fst (screen_pos zm cam_x cam_y wx wy))\<bar>
       \<le> \<bar>wx * (if zm then ZOOM_SCALE else SCALE) + 450 - of_int cam_x\<bar>
   \<and> \<bar>wx * (if zm then ZOOM_SCALE else SCALE) + 450 - of_int cam_x\<bar>
       < \<bar>of_int (fst (screen_pos zm cam_x cam_y wx wy))\<bar> + 1
   \<and> 0 \<le> of_int (fst (screen_pos zm cam_x cam_y wx wy))
           * (wx * (if zm then ZOOM_SCALE else SCALE) + 450 - of_int cam_x)
   \<and> \<bar>of_int (snd (screen_pos zm cam_x cam_y wx wy))\<bar>
       \<le> \<bar>wy * (if zm then ZOOM_SCALE else SCALE) + 300 - of_int cam_y\<bar>
   \<and> \<bar>wy * (if zm then ZOOM_SCALE else SCALE) + 300 - of_int cam_y\<bar>
       < \<bar>of_int (snd (screen_pos zm cam_x cam_y wx wy))\<bar> + 1
   \<and> 0 \<le> of_int (snd (screen_pos zm cam_x cam_y wx wy))
           * (wy * (if zm then ZOOM_SCALE else SCALE) + 300 - of_int cam_y)
   \<and> SCALE < ZOOM_SCALE"
proof -
  have e: "screen_pos zm cam_x cam_y wx wy =
     (py_int (wx * (if zm then ZOOM_SCALE else SCALE) + 450 - of_int cam_x),
      py_int (wy * (if zm then ZOOM_SCALE else SCALE) + 300 - of_int cam_y))"
    by (simp add: screen_pos_def current_scale_def WIDTH_def HEIGHT_def)
  have s: "SCALE < ZOOM_SCALE" by (simp add: SCALE_def ZOOM_SCALE_def)
  show ?thesis
    unfolding e fst_conv snd_conv
    using py_int_trunc[of "wx * (if zm then ZOOM_SCALE else SCALE) + 450 - of_int cam_x"]
          py_int_trunc[of "wy * (if zm then ZOOM_SCALE else SCALE) + 300 - of_int cam_y"] s
    by blast
qed

text \<open>
  C2 as the spec states it fails: zoomed in, with the camera at the origin, the world
  point \<open>x = 6e9\<close> lies at \<open>450.6\<close> on the screen axis; the code gives 450, rounding
  gives 451.
\<close>

theorem screen_pos_round_counterexample:
  "fst (screen_pos True 0 0 6000000000 0)
     \<noteq> round (6000000000 * ZOOM_SCALE + of_int (WIDTH div 2) - of_int 0 :: real)"
proof -
  have a: "fst (screen_pos True 0 0 6000000000 0) = 450"
    by (simp add: screen_pos_def py_int_def current_scale_def ZOOM_SCALE_def WIDTH_def)
  have b: "round (6000000000 * ZOOM_SCALE + of_int (WIDTH div 2) - of_int 0 :: real) = 451"
    by (simp add: ZOOM_SCALE_def WIDTH_def round_def)
  show ?thesis unfolding a b by simp
qed

section \<open>Forces never raise\<close>

lemma force_step_total: "\<exists>acc'. force_step a b acc = Inr acc'"
  by (auto simp: force_step_def truediv_def Let_def)

lemma force_loop_total: "\<exists>acc'. force_loop self i j bs acc = Inr acc'"
proof (induction bs arbitrary: j acc)
  case Nil
  show ?case by simp
next
  case (Cons other rest)
  obtain acc1 where s: "force_step self other acc = Inr acc1"
    using force_step_total by blast
  show ?case using s Cons.IH by simp
qed

lemma force_step_eq:
  "force_step a b acc =
     (if 1000 < sqrt ((body_x b - body_x a) ^ 2 + (body_y b - body_y a) ^ 2)
      then Inr (fst acc + G * mass a * mass b
                  / (sqrt ((body_x b - body_x a) ^ 2 + (body_y b - body_y a) ^ 2)) ^ 2
                  * (body_x b - body_x a)
                  / sqrt ((body_x b - body_x a) ^ 2 + (body_y b - body_y a) ^ 2),
                snd acc + G * mass a * mass b
                  / (sqrt ((body_x b - body_x a) ^ 2 + (body_y b - body_y a) ^ 2)) ^ 2
                  * (body_y b - body_y a)
                  / sqrt ((body_x b - body_x a) ^ 2 + (body_y b - body_y a) ^ 2))
      else Inr acc)"
proof (cases "1000 < sqrt ((body_x b - body_x a) ^ 2 + (body_y b - body_y a) ^ 2)")
  case True
  then have "sqrt ((body_x b - body_x a) ^ 2 + (body_y b - body_y a) ^ 2) \<noteq> 0"
    by linarith
  then show ?thesis using True
    by (simp add: force_step_def Let_def truediv_def)
next
  case False
  then show ?thesis by (simp add: force_step_def Let_def)
qed

lemma update_position_eq:
  assumes f: "force_loop (bs ! i) i 0 bs (0, 0) = Inr (fx, fy)"
    and m: "mass (bs ! i) \<noteq> 0"
  shows "update_position zm cam_x cam_y i bs =
     Inr ((integrate (bs ! i) (fx / mass (bs ! i)) (fy / mass (bs ! i)))
           \<lparr>trail := trail_append (trail (bs ! i))
              (screen_pos zm cam_x cam_y
                 (body_x (integrate (bs ! i) (fx / mass (bs ! i)) (fy / mass (bs ! i))))
                 (body_y (integrate (bs ! i) (fx / mass (bs ! i)) (fy / mass (bs ! i)))))\<rparr>)"
  using f m by (simp add: update_position_def truediv_def Let_def integrate_def)

lemma sqrt_4000000: "sqrt 4000000 = 2000"
  using real_sqrt_abs[of 2000] by simp

lemma sqrt_1000000: "sqrt 1000000 = 1000"
  using real_sqrt_abs[of 1000] by simp

lemma sqrt_1000001: "sqrt (1000002000001 / 1000000) = 1000001 / 1000"
  using real_sqrt_abs[of "1000001 / 1000"] by (simp add: power2_eq_square)

section \<open>The orbit initializer\<close>

text \<open>
  C3, as the code has it. With \<open>a = 0\<close> the body is at the origin with zero velocity.
  With \<open>a > 0\<close>, \<open>0 \<le> e < 1\<close>, \<open>mass > 0\<close> and \<open>centralMass > 0\<close> the call returns
  (raising nothing) the body at \<open>(a * (1 - e), 0)\<close> with velocity
  \<open>(0, sqrt (G * centralMass * (1 + e) / (a * (1 - e))))\<close>. For the Earth's row
  (\<open>a = 1.496e11\<close>, \<open>e = 0.0167\<close>, central mass \<open>1.989e30\<close>) the position is
  \<open>(1.4710168e11, 0)\<close> and the speed lies between 30290 and 30291 m/s.
\<close>

theorem get_initial_conditions_perihelion:
  "get_initial_conditions 0 e m rad col nm cm = Inr (Body 0 0 0 0 m rad col nm)
   \<and> (0 < a \<and> 0 \<le> e \<and> e < 1 \<and> 0 < m \<and> 0 < cm \<longrightarrow>
        get_initial_conditions a e m rad col nm cm =
          Inr (Body (a * (1 - e)) 0 0 (sqrt (G * cm * (1 + e) / (a * (1 - e)))) m rad col nm))
   \<and> (\<exists>v. get_initial_conditions (1496 * 10 ^ 8) (167 / 10 ^ 4) (5972 * 10 ^ 21) 4
              (0, 100, 255) ''Earth'' (1989 * 10 ^ 27) =
               Inr (Body 147101680000 0 0 v (5972 * 10 ^ 21) 4 (0, 100, 255) ''Earth'')
            \<and> 30290 < v \<and> v < 30291)"
proof (intro conjI impI)
  show "get_initial_conditions 0 e m rad col nm cm = Inr (Body 0 0 0 0 m rad col nm)"
    by (simp add: get_initial_conditions_def)
next
  assume h: "0 < a \<and> 0 \<le> e \<and> e < 1 \<and> 0 < m \<and> 0 < cm"
  then have d: "a * (1 - e) > 0" by simp
  have n: "0 \<le> G * cm * (1 + e)" using h by (simp add: G_def)
  have q: "0 \<le> G * cm * (1 + e) / (a * (1 - e))"
    using n d by (simp add: divide_nonneg_pos)
  show "get_initial_conditions a e m rad col nm cm =
          Inr (Body (a * (1 - e)) 0 0 (sqrt (G * cm * (1 + e) / (a * (1 - e)))) m rad col nm)"
    using h d q by (simp add: get_initial_conditions_def truediv_def math_sqrt_def Let_def)
next
  let ?q = "G * (1989 * 10 ^ 27) * (1 + 167 / 10 ^ 4) / (1496 * 10 ^ 8 * (1 - 167 / 10 ^ 4)) :: real"
  have lo: "30290 < sqrt ?q"
    by (rule real_less_rsqrt) (simp add: G_def)
  have hi: "sqrt ?q < 30291"
    by (rule real_less_lsqrt) (simp_all add: G_def)
  have e: "get_initial_conditions (1496 * 10 ^ 8) (167 / 10 ^ 4) (5972 * 10 ^ 21) 4
              (0, 100, 255) ''Earth'' (1989 * 10 ^ 27) =
               Inr (Body 147101680000 0 0 (sqrt ?q) (5972 * 10 ^ 21) 4 (0, 100, 255) ''Earth'')"
    by (simp add: get_initial_conditions_def truediv_def math_sqrt_def Let_def G_def)
  show "\<exists>v. get_initial_conditions (1496 * 10 ^ 8) (167 / 10 ^ 4) (5972 * 10 ^ 21) 4
              (0, 100, 255) ''Earth'' (1989 * 10 ^ 27) =
               Inr (Body 147101680000 0 0 v (5972 * 10 ^ 21) 4 (0, 100, 255) ''Earth'')
            \<and> 30290 < v \<and> v < 30291"
    using lo hi e by blast
qed

text \<open>The central body's row, and an orbit with \<open>a = 4\<close>, \<open>e = 1/2\<close>.\<close>

theorem get_initial_conditions_perihelion_witness:
  "get_initial_conditions 0 0 (1989 * 10 ^ 27) 8 (255, 255, 0) ''Sun'' (1989 * 10 ^ 27) =
     Inr (Body 0 0 0 0 (1989 * 10 ^ 27) 8 (255, 255, 0) ''Sun'')
   \<and> get_initial_conditions 4 (1 / 2) 1 1 (0, 0, 0) ''p'' 1 =
     Inr (Body 2 0 0 (sqrt (G * 3 / 4)) 1 1 (0, 0, 0) ''p'')"
  using get_initial_conditions_perihelion
          [of 0 "1989 * 10 ^ 27" 8 "(255, 255, 0)" "''Sun''" "1989 * 10 ^ 27" 4]
        get_initial_conditions_perihelion [of "1 / 2" 1 1 "(0, 0, 0)" "''p''" 1 4]
  by simp

text \<open>
  C3 as the spec states it fails in its example: the Earth's speed at perihelion that
  the code computes is more than 500 m/s away from \<open>2.978e4\<close> m/s.
\<close>

theorem earth_speed_counterexample:
  "get_initial_conditions (1496 * 10 ^ 8) (167 / 10 ^ 4) (5972 * 10 ^ 21) 4
       (0, 100, 255) ''Earth'' (1989 * 10 ^ 27) =
     Inr (Body 147101680000 0 0
          (sqrt (G * (1989 * 10 ^ 27) * (1 + 167 / 10 ^ 4) / (1496 * 10 ^ 8 * (1 - 167 / 10 ^ 4))))
          (5972 * 10 ^ 21) 4 (0, 100, 255) ''Earth'')
   \<and> \<not> \<bar>sqrt (G * (1989 * 10 ^ 27) * (1 + 167 / 10 ^ 4) / (1496 * 10 ^ 8 * (1 - 167 / 10 ^ 4)))
          - 29780\<bar> \<le> 500"
proof -
  let ?q = "G * (1989 * 10 ^ 27) * (1 + 167 / 10 ^ 4) / (1496 * 10 ^ 8 * (1 - 167 / 10 ^ 4)) :: real"
  have lo: "30290 < sqrt ?q"
    by (rule real_less_rsqrt) (simp add: G_def)
  have e: "get_initial_conditions (1496 * 10 ^ 8) (167 / 10 ^ 4) (5972 * 10 ^ 21) 4
              (0, 100, 255) ''Earth'' (1989 * 10 ^ 27) =
               Inr (Body 147101680000 0 0 (sqrt ?q) (5972 * 10 ^ 21) 4 (0, 100, 255) ''Earth'')"
    by (simp add: get_initial_conditions_def truediv_def math_sqrt_def Let_def G_def)
  show ?thesis using lo e by simp
qed

section \<open>The integration step\<close>

text \<open>
  C4. For a body of nonzero mass, \<open>update_position\<close> returns; with \<open>(fx, fy)\<close> the net
  force that the loop computes from the positions before the update and
  \<open>a = (fx / mass, fy / mass)\<close>, the new velocity is \<open>v + a * DT\<close> and the new position is
  the old position plus the new velocity times \<open>DT\<close>, with \<open>DT = 3600\<close>.
\<close>

theorem update_position_semi_implicit:
  assumes "mass (bs ! i) \<noteq> 0"
  shows "\<exists>fx fy b'.
           force_loop (bs ! i) i 0 bs (0, 0) = Inr (fx, fy)
         \<and> update_position zm cam_x cam_y i bs = Inr b'
         \<and> body_vx b' = body_vx (bs ! i) + fx / mass (bs ! i) * DT
         \<and> body_vy b' = body_vy (bs ! i) + fy / mass (bs ! i) * DT
         \<and> body_x b' = body_x (bs ! i) + body_vx b' * DT
         \<and> body_y b' = body_y (bs ! i) + body_vy b' * DT
         \<and> DT = 3600"
proof -
  obtain fx fy where f: "force_loop (bs ! i) i 0 bs (0, 0) = Inr (fx, fy)"
    using force_loop_total[of "bs ! i" i 0 bs "(0, 0)"] by auto
  show ?thesis
    using f update_position_eq[OF f assms, of zm cam_x cam_y]
    by (simp add: integrate_def Let_def DT_def)
qed

text \<open>
  Two bodies 2000 m apart on the x axis; the second one is pulled towards the first
  and moves with its new velocity.
\<close>

theorem update_position_semi_implicit_witness:
  "\<exists>b'. update_position False 0 0 1
           [Body 0 0 0 0 (4 * 10 ^ 21) 1 (0, 0, 0) ''a'', Body 2000 0 5 7 3 1 (0, 0, 0) ''b''] = Inr b'
       \<and> body_vx b' = 5 - G * 10 ^ 15 * 3600
       \<and> body_vy b' = 7
       \<and> body_x b' = 2000 + body_vx b' * 3600
       \<and> body_y b' = 7 * 3600"
  using update_position_semi_implicit
    [of "[Body 0 0 0 0 (4 * 10 ^ 21) 1 (0, 0, 0) ''a'', Body 2000 0 5 7 3 1 (0, 0, 0) ''b'']" 1 False 0 0]
  by (auto simp: Body_def force_step_def truediv_def Let_def sqrt_4000000 DT_def G_def)

section \<open>The distance floor\<close>

text \<open>
  C5. With \<open>r\<close> the distance of the two bodies and \<open>f = G * m1 * m2 / r^2\<close>: at
  \<open>r \<le> 1000\<close> a pass of the loop leaves the force components as they are; at
  \<open>r > 1000\<close> it adds \<open>(f * dx / r, f * dy / r)\<close>, which is not the zero vector for
  bodies of positive mass; and no pass, and no run of the whole loop, raises: the
  divisions are reached with \<open>r > 1000\<close> only.
\<close>

theorem force_step_floor:
  fixes a b :: body
  defines "dx \<equiv> body_x b - body_x a"
    and "dy \<equiv> body_y b - body_y a"
  defines "r \<equiv> sqrt (dx ^ 2 + dy ^ 2)"
  defines "f \<equiv> G * mass a * mass b / r ^ 2"
  shows "(r \<le> 1000 \<longrightarrow> force_step a b acc = Inr acc)
       \<and> (r > 1000 \<longrightarrow> force_step a b acc = Inr (fst acc + f * dx / r, snd acc + f * dy / r))
       \<and> (r > 1000 \<and> mass a > 0 \<and> mass b > 0 \<longrightarrow> f > 0 \<and> (f * dx / r, f * dy / r) \<noteq> (0, 0))
       \<and> (\<forall>e. force_step a b acc \<noteq> Inl e)
       \<and> (\<forall>i j bs e. force_loop a i j bs acc \<noteq> Inl e)"
proof (intro conjI impI allI)
  assume "r \<le> 1000"
  then show "force_step a b acc = Inr acc"
    by (simp add: force_step_def Let_def r_def dx_def dy_def)
next
  assume "r > 1000"
  then show "force_step a b acc = Inr (fst acc + f * dx / r, snd acc + f * dy / r)"
    unfolding force_step_eq[of a b acc] by (simp add: r_def dx_def dy_def f_def)
next
  assume h: "r > 1000 \<and> mass a > 0 \<and> mass b > 0"
  then have r1: "1000 < r" by blast
  have "(0::real) < 1000" by simp
  also note r1
  finally have r0: "r > 0" .
  have g: "G > 0" by (simp add: G_def)
  show "f > 0" unfolding f_def using h r0 g by simp
next
  assume h: "r > 1000 \<and> mass a > 0 \<and> mass b > 0"
  then have r1: "1000 < r" by blast
  have "(0::real) < 1000" by simp
  also note r1
  finally have r0: "r > 0" .
  have g: "G > 0" by (simp add: G_def)
  have f0: "f > 0" unfolding f_def using h r0 g by simp
  have "dx \<noteq> 0 \<or> dy \<noteq> 0"
  proof (rule ccontr)
    assume "\<not> (dx \<noteq> 0 \<or> dy \<noteq> 0)"
    then have "r = 0" by (simp add: r_def)
    with r0 show False by simp
  qed
  then show "(f * dx / r, f * dy / r) \<noteq> (0, 0)"
    using f0 r0 by auto
next
  fix e
  show "force_step a b acc \<noteq> Inl e"
    using force_step_total[of a b acc] by auto
next
  fix i j bs e
  show "force_loop a i j bs acc \<noteq> Inl e"
    using force_loop_total[of a i j bs acc] by auto
qed

text \<open>The boundary: nothing at exactly 1000 m, a force at 1000.001 m.\<close>

theorem force_step_floor_witness:
  "force_step (Body 0 0 0 0 5 1 (0, 0, 0) ''a'') (Body 1000 0 0 0 7 1 (0, 0, 0) ''b'') (0, 0)
     = Inr (0, 0)
   \<and> force_step (Body 0 0 0 0 5 1 (0, 0, 0) ''a'') (Body (1000001 / 1000) 0 0 0 7 1 (0, 0, 0) ''b'') (0, 0)
     = Inr (G * 35 * 10 ^ 6 / 1000002000001, 0)
   \<and> G * 35 * 10 ^ 6 / 1000002000001 > 0"
  using force_step_floor [where a = "Body 0 0 0 0 5 1 (0, 0, 0) ''a''"
            and b = "Body 1000 0 0 0 7 1 (0, 0, 0) ''b''" and acc = "(0, 0)"]
        force_step_floor [where a = "Body 0 0 0 0 5 1 (0, 0, 0) ''a''"
            and b = "Body (1000001 / 1000) 0 0 0 7 1 (0, 0, 0) ''b''" and acc = "(0, 0)"]
  by (simp add: Body_def sqrt_1000000 sqrt_1000001 G_def power2_eq_square)

section \<open>Newton's third law\<close>

text \<open>Rounding to the nearest double: it is near, odd, and zero only at zero.\<close>

lemma round_even_near: "\<bar>of_int (round_even v) - v\<bar> \<le> 1 / 2"
proof -
  have h1: "of_int \<lfloor>v\<rfloor> \<le> v" and h2: "v < of_int \<lfloor>v\<rfloor> + 1"
    using floor_correct[of v] by simp_all
  consider (a) "v - of_int \<lfloor>v\<rfloor> < 1 / 2" | (b) "1 / 2 < v - of_int \<lfloor>v\<rfloor>"
    | (c) "v - of_int \<lfloor>v\<rfloor> = 1 / 2"
    by linarith
  then show ?thesis
  proof cases
    case a
    then have "round_even v = \<lfloor>v\<rfloor>" by (simp add: round_even_def Let_def)
    then show ?thesis using a h1 by simp
  next
    case b
    then have "round_even v = \<lfloor>v\<rfloor> + 1" by (simp add: round_even_def Let_def)
    then show ?thesis using b h2 by simp
  next
    case c
    then have "round_even v = \<lfloor>v\<rfloor> \<or> round_even v = \<lfloor>v\<rfloor> + 1"
      by (simp add: round_even_def Let_def)
    then show ?thesis using c by auto
  qed
qed

lemma round_even_minus: "round_even (- v) = - round_even v"
proof (cases "v = of_int \<lfloor>v\<rfloor>")
  case True
  then have "\<lfloor>- v\<rfloor> = - \<lfloor>v\<rfloor>" by (metis floor_of_int of_int_minus)
  then show ?thesis using True by (simp add: round_even_def Let_def)
next
  case False
  have "of_int \<lfloor>v\<rfloor> \<le> v" by (rule of_int_floor_le)
  with False have lt: "of_int \<lfloor>v\<rfloor> < v" by linarith
  have h2: "v < of_int \<lfloor>v\<rfloor> + 1" using floor_correct[of v] by simp
  have k: "(of_int (- \<lfloor>v\<rfloor> - 1) :: real) = - of_int \<lfloor>v\<rfloor> - 1" by simp
  have c: "\<lfloor>- v\<rfloor> = - \<lfloor>v\<rfloor> - 1"
  proof (rule floor_unique)
    show "of_int (- \<lfloor>v\<rfloor> - 1) \<le> - v" unfolding k using h2 by linarith
    show "- v < of_int (- \<lfloor>v\<rfloor> - 1) + 1" unfolding k using lt by linarith
  qed
  have d: "- v - of_int (- \<lfloor>v\<rfloor> - 1) = 1 - (v - of_int \<lfloor>v\<rfloor>)"
    unfolding k by linarith
  consider (a) "v - of_int \<lfloor>v\<rfloor> < 1 / 2" | (b) "1 / 2 < v - of_int \<lfloor>v\<rfloor>"
    | (c) "v - of_int \<lfloor>v\<rfloor> = 1 / 2"
    by linarith
  then show ?thesis
  proof cases
    case a
    then have "1 / 2 < - v - of_int (- \<lfloor>v\<rfloor> - 1)" unfolding d by linarith
    then have "round_even (- v) = - \<lfloor>v\<rfloor> - 1 + 1"
      unfolding round_even_def Let_def c by simp
    moreover have "round_even v = \<lfloor>v\<rfloor>" using a by (simp add: round_even_def Let_def)
    ultimately show ?thesis by simp
  next
    case b
    then have "- v - of_int (- \<lfloor>v\<rfloor> - 1) < 1 / 2" unfolding d by linarith
    then have "round_even (- v) = - \<lfloor>v\<rfloor> - 1"
      unfolding round_even_def Let_def c by simp
    moreover have "round_even v = \<lfloor>v\<rfloor> + 1" using b by (simp add: round_even_def Let_def)
    ultimately show ?thesis by simp
  next
    case c
    then have e: "- v - of_int (- \<lfloor>v\<rfloor> - 1) = 1 / 2" unfolding d by linarith
    have 1: "round_even (- v) = (if even (- \<lfloor>v\<rfloor> - 1) then - \<lfloor>v\<rfloor> - 1 else - \<lfloor>v\<rfloor> - 1 + 1)"
      unfolding round_even_def Let_def \<open>\<lfloor>- v\<rfloor> = - \<lfloor>v\<rfloor> - 1\<close> e by simp
    have 2: "round_even v = (if even \<lfloor>v\<rfloor> then \<lfloor>v\<rfloor> else \<lfloor>v\<rfloor> + 1)"
      unfolding round_even_def Let_def c by simp
    show ?thesis unfolding 1 2 by simp
  qed
qed

lemma two_powr_powi: "2 powr (of_int k) = (2::real) powi k"
  by (simp add: powr_real_of_int power_int_def power_one_over inverse_eq_divide)

lemma floor_log2_bounds:
  assumes "v \<noteq> 0"
  shows "2 powi \<lfloor>log 2 \<bar>v\<bar>\<rfloor> \<le> \<bar>v\<bar> \<and> \<bar>v\<bar> < 2 powi (\<lfloor>log 2 \<bar>v\<bar>\<rfloor> + 1)"
proof -
  have p: "0 < \<bar>v\<bar>" using assms by simp
  have "2 powr of_int \<lfloor>log 2 \<bar>v\<bar>\<rfloor> \<le> \<bar>v\<bar> \<and> \<bar>v\<bar> < 2 powr (of_int \<lfloor>log 2 \<bar>v\<bar>\<rfloor> + 1)"
    using floor_log_eq_powr_iff[OF p, of 2 "\<lfloor>log 2 \<bar>v\<bar>\<rfloor>"] by simp
  moreover have "(2::real) powr (of_int \<lfloor>log 2 \<bar>v\<bar>\<rfloor> + 1) = 2 powr of_int (\<lfloor>log 2 \<bar>v\<bar>\<rfloor> + 1)"
    by simp
  ultimately show ?thesis by (simp only: two_powr_powi)
qed

lemma fl_eval:
  assumes lo: "2 ^ 52 \<le> \<bar>v\<bar> / 2 powi e" and hi: "\<bar>v\<bar> / 2 powi e < 2 ^ 53"
  shows "fl v = of_int (round_even (v / 2 powi e)) * 2 powi e"
proof -
  have pe: "(0::real) < 2 powi e" by simp
  have v0: "v \<noteq> 0" using lo by auto
  have p: "0 < \<bar>v\<bar>" using v0 by simp
  have a: "(2::real) powi (e + 52) = 2 ^ 52 * 2 powi e"
    by (simp add: power_int_add)
  have b: "(2::real) powi (e + 53) = 2 ^ 53 * 2 powi e"
    by (simp add: power_int_add)
  have 1: "2 powi (e + 52) \<le> \<bar>v\<bar>" unfolding a using lo pe by (simp add: pos_le_divide_eq)
  have 2: "\<bar>v\<bar> < 2 powi (e + 53)" unfolding b using hi pe by (simp add: pos_divide_less_eq)
  have "\<lfloor>log 2 \<bar>v\<bar>\<rfloor> = e + 52"
    using floor_log_eq_powr_iff[OF p, of 2 "e + 52"] 1 2
    by (simp add: two_powr_powi[symmetric] add.commute add.left_commute)
  then show ?thesis using v0 by (simp add: fl_def Let_def)
qed

lemma fl_minus: "fl (- v) = - fl v"
  by (simp add: fl_def Let_def round_even_minus)

lemma fl_zero_iff: "fl v = 0 \<longleftrightarrow> v = 0"
proof
  assume "v = 0" then show "fl v = 0" by (simp add: fl_def)
next
  assume z: "fl v = 0"
  show "v = 0"
  proof (rule ccontr)
    assume v0: "v \<noteq> 0"
    define e where "e = \<lfloor>log 2 \<bar>v\<bar>\<rfloor> - 52"
    have pe: "(0::real) < 2 powi e" by simp
    have "2 powi (e + 52) \<le> \<bar>v\<bar>" using floor_log2_bounds[OF v0] by (simp add: e_def)
    moreover have "(2::real) powi (e + 52) = 2 ^ 52 * 2 powi e" by (simp add: power_int_add)
    ultimately have m: "2 ^ 52 \<le> \<bar>v / 2 powi e\<bar>" using pe by (simp add: pos_le_divide_eq)
    have "fl v = of_int (round_even (v / 2 powi e)) * 2 powi e"
      using v0 by (simp add: fl_def Let_def e_def)
    with z pe have "round_even (v / 2 powi e) = 0" by simp
    with round_even_near[of "v / 2 powi e"] have "\<bar>v / 2 powi e\<bar> \<le> 1 / 2" by simp
    with m have "(2::real) ^ 52 \<le> 1 / 2" by linarith
    then show False by simp
  qed
qed

text \<open>The pass in doubles never raises: above the floor the divisors are not zero.\<close>

lemma force_step_fl_eq:
  "force_step_fl self other acc =
     (let dx = fl (body_x other - body_x self);
          dy = fl (body_y other - body_y self);
          r = fl (sqrt (fl (fl (dx ^ 2) + fl (dy ^ 2))));
          f = fl (fl (fl (G64 * mass self) * mass other) / fl (r ^ 2))
      in if r > 1000
         then Inr (fl (fst acc + fl (fl (f * dx) / r)), fl (snd acc + fl (fl (f * dy) / r)))
         else Inr acc)"
proof -
  define r where
    "r = fl (sqrt (fl (fl ((fl (body_x other - body_x self)) ^ 2)
                     + fl ((fl (body_y other - body_y self)) ^ 2))))"
  show ?thesis
  proof (cases "r > 1000")
    case True
    then have r0: "r \<noteq> 0" by linarith
    then have r2: "fl (r ^ 2) \<noteq> 0" by (simp add: fl_zero_iff)
    show ?thesis
      using True r0 r2
      unfolding force_step_fl_def Let_def r_def[symmetric] truediv_fl_def
      by simp
  next
    case False
    then show ?thesis
      unfolding force_step_fl_def Let_def r_def[symmetric]
      by simp
  qed
qed

text \<open>
  One rounding moves a number by at most \<open>2^-53\<close> of its size, so a value that is within
  \<open>(1 + 2^-53)^k - 1\<close> of a target (relative to the target) is within
  \<open>(1 + 2^-53)^(k+1) - 1\<close> after one more rounding; exact factors and divisors keep the
  relative distance. The pass rounds six times between the product \<open>G * m1\<close> and the
  component it adds.
\<close>

lemma fl_error: "\<bar>fl v - v\<bar> \<le> \<bar>v\<bar> / 2 ^ 53"
proof (cases "v = 0")
  case True
  then show ?thesis by (simp add: fl_def)
next
  case False
  define e where "e = \<lfloor>log 2 \<bar>v\<bar>\<rfloor> - 52"
  define m where "m = v / 2 powi e"
  have pe: "(0::real) < 2 powi e" by simp
  have f: "fl v = of_int (round_even m) * 2 powi e"
    using False by (simp add: fl_def Let_def e_def m_def)
  have mv: "m * 2 powi e = v" by (simp add: m_def)
  have "fl v - v = of_int (round_even m) * 2 powi e - m * 2 powi e"
    unfolding f mv by simp
  then have "fl v - v = (of_int (round_even m) - m) * 2 powi e"
    by (simp add: left_diff_distrib)
  then have "\<bar>fl v - v\<bar> = \<bar>of_int (round_even m) - m\<bar> * 2 powi e"
    by (simp add: abs_mult)
  also have "\<dots> \<le> 1 / 2 * 2 powi e"
    using round_even_near[of m] pe by (intro mult_right_mono) simp_all
  finally have 1: "\<bar>fl v - v\<bar> \<le> 2 powi e / 2" by simp
  have "2 powi (e + 52) \<le> \<bar>v\<bar>" using floor_log2_bounds[OF False] by (simp add: e_def)
  moreover have "(2::real) powi (e + 52) = 2 ^ 52 * 2 powi e" by (simp add: power_int_add)
  ultimately have "2 ^ 52 * 2 powi e \<le> \<bar>v\<bar>" by simp
  then have "2 powi e / 2 \<le> \<bar>v\<bar> / 2 ^ 53" by simp
  with 1 show ?thesis by linarith
qed

lemma fl_close:
  assumes "\<bar>x - t\<bar> \<le> ((1 + 1 / 2 ^ 53) ^ k - 1) * \<bar>t\<bar>"
  shows "\<bar>fl x - t\<bar> \<le> ((1 + 1 / 2 ^ 53) ^ Suc k - 1) * \<bar>t\<bar>"
proof -
  define u :: real where "u = 1 / 2 ^ 53"
  have u0: "0 \<le> u" by (simp add: u_def)
  have a: "\<bar>x - t\<bar> \<le> ((1 + u) ^ k - 1) * \<bar>t\<bar>" using assms by (simp add: u_def)
  have "\<bar>x\<bar> \<le> \<bar>t\<bar> + \<bar>x - t\<bar>" by linarith
  also have "\<dots> \<le> \<bar>t\<bar> + ((1 + u) ^ k - 1) * \<bar>t\<bar>" using a by linarith
  also have "\<dots> = (1 + u) ^ k * \<bar>t\<bar>" by (simp add: algebra_simps)
  finally have x: "\<bar>x\<bar> \<le> (1 + u) ^ k * \<bar>t\<bar>" .
  have "\<bar>fl x - x\<bar> \<le> u * \<bar>x\<bar>" using fl_error[of x] by (simp add: u_def)
  also have "\<dots> \<le> u * ((1 + u) ^ k * \<bar>t\<bar>)" using x u0 by (rule mult_left_mono)
  finally have e: "\<bar>fl x - x\<bar> \<le> u * ((1 + u) ^ k * \<bar>t\<bar>)" .
  have "\<bar>fl x - t\<bar> \<le> \<bar>fl x - x\<bar> + \<bar>x - t\<bar>" by linarith
  also have "\<dots> \<le> u * ((1 + u) ^ k * \<bar>t\<bar>) + ((1 + u) ^ k - 1) * \<bar>t\<bar>"
    using e a by linarith
  also have "\<dots> = ((1 + u) ^ Suc k - 1) * \<bar>t\<bar>" by (simp add: algebra_simps)
  finally show ?thesis by (simp add: u_def)
qed

lemma close_mult:
  fixes x t y c :: real
  assumes "\<bar>x - t\<bar> \<le> c * \<bar>t\<bar>"
  shows "\<bar>x * y - t * y\<bar> \<le> c * \<bar>t * y\<bar>"
proof -
  have "x * y - t * y = (x - t) * y" by (simp add: left_diff_distrib)
  then have "\<bar>x * y - t * y\<bar> = \<bar>x - t\<bar> * \<bar>y\<bar>" by (simp add: abs_mult)
  also have "\<dots> \<le> c * \<bar>t\<bar> * \<bar>y\<bar>" using assms by (intro mult_right_mono) simp_all
  finally show ?thesis by (simp add: abs_mult mult.assoc)
qed

lemma close_div:
  fixes x t y c :: real
  assumes "\<bar>x - t\<bar> \<le> c * \<bar>t\<bar>"
  shows "\<bar>x / y - t / y\<bar> \<le> c * \<bar>t / y\<bar>"
  unfolding divide_inverse by (rule close_mult[OF assms])

lemma pass_close:
  "\<bar>fl (0 + fl (fl (fl (fl (fl (p * m1) * m2) / q) * d) / r)) - p * m1 * m2 / q * d / r\<bar>
     \<le> ((1 + 1 / 2 ^ 53) ^ 6 - 1) * \<bar>p * m1 * m2 / q * d / r\<bar>"
proof -
  have 0: "\<bar>p * m1 - p * m1\<bar> \<le> ((1 + 1 / 2 ^ 53) ^ 0 - 1) * \<bar>p * m1\<bar>" by simp
  note 1 = close_mult[OF fl_close[OF 0], of m2]
  note 2 = close_div[OF fl_close[OF 1], of q]
  note 3 = close_mult[OF fl_close[OF 2], of d]
  note 4 = close_div[OF fl_close[OF 3], of r]
  note 5 = fl_close[OF 4]
  have "\<bar>(0 + fl (fl (fl (fl (fl (p * m1) * m2) / q) * d) / r)) - p * m1 * m2 / q * d / r\<bar>
     \<le> ((1 + 1 / 2 ^ 53) ^ Suc (Suc (Suc (Suc (Suc 0)))) - 1) * \<bar>p * m1 * m2 / q * d / r\<bar>"
    using 5 by simp
  from fl_close[OF this] show ?thesis by (simp add: eval_nat_numeral)
qed

lemma six_roundings: "2 * ((1 + 1 / 2 ^ 53) ^ 6 - 1) \<le> (1 / 2 ^ 49 :: real)"
  by (simp add: field_simps)

text \<open>The pass for the swapped pair, in the displacement and distance of the first pair.\<close>

lemma force_step_fl_swap:
  "force_step_fl b a acc =
     (let dx = fl (body_x b - body_x a);
          dy = fl (body_y b - body_y a);
          r = fl (sqrt (fl (fl (dx ^ 2) + fl (dy ^ 2))));
          f = fl (fl (fl (G64 * mass b) * mass a) / fl (r ^ 2))
      in if r > 1000
         then Inr (fl (fst acc + fl (fl (f * (- dx)) / r)), fl (snd acc + fl (fl (f * (- dy)) / r)))
         else Inr acc)"
proof -
  have xa: "body_x a - body_x b = - (body_x b - body_x a)"
    and ya: "body_y a - body_y b = - (body_y b - body_y a)"
    by simp_all
  show ?thesis
    unfolding force_step_fl_eq[of b a acc] Let_def xa ya fl_minus power2_minus
    by simp
qed

text \<open>
  C9, as the code has it. The force that the loop of \<open>a\<close> adds for \<open>b\<close> and the force
  that the loop of \<open>b\<close> adds for \<open>a\<close>, as the doubles compute them, are exact negations
  of each other (same magnitude, opposite direction) whenever the two rounded
  products \<open>(G * mass a) * mass b\<close> and \<open>(G * mass b) * mass a\<close> are the same double: the
  displacement, the distance and every later operation are symmetric, and the
  product of line 65 is the one place where the order of the two masses enters. In
  every case each component of the one force and the same component of the other
  add up to at most \<open>2^-49\<close> of the size of the exact component
  \<open>G * mass a * mass b / r^2 * d / r\<close> (with the displacement \<open>d\<close>, the distance \<open>r\<close> and
  the square \<open>r^2\<close> as the pass computes them).
\<close>

theorem force_step_fl_newton3:
  fixes a b :: body
  defines "dx \<equiv> fl (body_x b - body_x a)"
    and "dy \<equiv> fl (body_y b - body_y a)"
  defines "r \<equiv> fl (sqrt (fl (fl (dx ^ 2) + fl (dy ^ 2))))"
  shows "\<exists>gx gy hx hy.
           force_step_fl a b (0, 0) = Inr (gx, gy)
         \<and> force_step_fl b a (0, 0) = Inr (hx, hy)
         \<and> (fl (fl (G64 * mass a) * mass b) = fl (fl (G64 * mass b) * mass a) \<longrightarrow>
              hx = - gx \<and> hy = - gy)
         \<and> \<bar>gx + hx\<bar> \<le> \<bar>G64 * mass a * mass b / fl (r ^ 2) * dx / r\<bar> / 2 ^ 49
         \<and> \<bar>gy + hy\<bar> \<le> \<bar>G64 * mass a * mass b / fl (r ^ 2) * dy / r\<bar> / 2 ^ 49"
proof (cases "r > 1000")
  case False
  have ab: "force_step_fl a b (0, 0) = Inr (0, 0)"
    unfolding force_step_fl_eq[of a b] Let_def dx_def[symmetric] dy_def[symmetric] r_def[symmetric]
    using False by simp
  have ba: "force_step_fl b a (0, 0) = Inr (0, 0)"
    unfolding force_step_fl_swap[of b a] Let_def dx_def[symmetric] dy_def[symmetric] r_def[symmetric]
    using False by simp
  show ?thesis unfolding ab ba by simp
next
  case True
  define q where "q = fl (r ^ 2)"
  define c :: real where "c = (1 + 1 / 2 ^ 53) ^ 6 - 1"
  define gx where "gx = fl (0 + fl (fl (fl (fl (fl (G64 * mass a) * mass b) / q) * dx) / r))"
  define gy where "gy = fl (0 + fl (fl (fl (fl (fl (G64 * mass a) * mass b) / q) * dy) / r))"
  define hx where "hx = fl (0 + fl (fl (fl (fl (fl (G64 * mass b) * mass a) / q) * (- dx)) / r))"
  define hy where "hy = fl (0 + fl (fl (fl (fl (fl (G64 * mass b) * mass a) / q) * (- dy)) / r))"
  have ab: "force_step_fl a b (0, 0) = Inr (gx, gy)"
    unfolding force_step_fl_eq[of a b] Let_def dx_def[symmetric] dy_def[symmetric] r_def[symmetric]
    using True by (simp add: gx_def gy_def q_def)
  have ba: "force_step_fl b a (0, 0) = Inr (hx, hy)"
    unfolding force_step_fl_swap[of b a] Let_def dx_def[symmetric] dy_def[symmetric] r_def[symmetric]
    using True by (simp add: hx_def hy_def q_def)
  have eq: "fl (fl (G64 * mass a) * mass b) = fl (fl (G64 * mass b) * mass a) \<longrightarrow>
              hx = - gx \<and> hy = - gy"
  proof
    assume p: "fl (fl (G64 * mass a) * mass b) = fl (fl (G64 * mass b) * mass a)"
    show "hx = - gx \<and> hy = - gy"
      unfolding hx_def hy_def gx_def gy_def p by (simp add: fl_minus)
  qed
  have c2: "2 * c \<le> 1 / 2 ^ 49" unfolding c_def by (rule six_roundings)
  have bound: "\<bar>g + h\<bar> \<le> \<bar>t\<bar> / 2 ^ 49"
    if g: "\<bar>g - t\<bar> \<le> c * \<bar>t\<bar>" and h: "\<bar>h - (- t)\<bar> \<le> c * \<bar>- t\<bar>" for g h t :: real
  proof -
    have "\<bar>g + h\<bar> \<le> \<bar>g - t\<bar> + \<bar>h - (- t)\<bar>" by linarith
    also have "\<dots> \<le> 2 * c * \<bar>t\<bar>" using g h by simp
    also have "\<dots> \<le> 1 / 2 ^ 49 * \<bar>t\<bar>" using c2 by (intro mult_right_mono) simp_all
    finally show ?thesis by simp
  qed
  have tx: "G64 * mass b * mass a / q * (- dx) / r = - (G64 * mass a * mass b / q * dx / r)"
    and ty: "G64 * mass b * mass a / q * (- dy) / r = - (G64 * mass a * mass b / q * dy / r)"
    by (simp_all add: mult.commute mult.left_commute)
  have bx: "\<bar>gx + hx\<bar> \<le> \<bar>G64 * mass a * mass b / q * dx / r\<bar> / 2 ^ 49"
    using pass_close[of G64 "mass a" "mass b" q dx r]
          pass_close[of G64 "mass b" "mass a" q "- dx" r]
    unfolding tx gx_def[symmetric] hx_def[symmetric] c_def[symmetric]
    by (rule bound)
  have "by": "\<bar>gy + hy\<bar> \<le> \<bar>G64 * mass a * mass b / q * dy / r\<bar> / 2 ^ 49"
    using pass_close[of G64 "mass a" "mass b" q dy r]
          pass_close[of G64 "mass b" "mass a" q "- dy" r]
    unfolding ty gy_def[symmetric] hy_def[symmetric] c_def[symmetric]
    by (rule bound)
  show ?thesis using ab ba eq bx "by" unfolding q_def by blast
qed

text \<open>
  The doubles of the products and quotients that the examples need. \<open>fl_eval\<close> gives
  each one from its exponent.
\<close>

lemma G64_value: "G64 = (5163989502626508 / 2 ^ 86)"
  unfolding G64_def G_def
  by (subst fl_eval[where e = "-86"]) (simp_all add: round_even_def Let_def)

lemma fl_3_7_1: "fl (G64 * 3) = (7745984253939762 / 2 ^ 85)"
  by (subst fl_eval[where e = "-85"]) (simp_all add: round_even_def Let_def G64_value)

lemma fl_3_7_2: "fl ((7745984253939762 / 2 ^ 85) * 7) = (6777736222197292 / 2 ^ 82)"
  by (subst fl_eval[where e = "-82"]) (simp_all add: round_even_def Let_def)

lemma fl_3_7_3: "fl ((6777736222197292 / 2 ^ 82) / 4000000) = (7106971536926748 / 2 ^ 104)"
  by (subst fl_eval[where e = "-104"]) (simp_all add: round_even_def Let_def)

lemma fl_3_7_4: "fl ((7106971536926748 / 2 ^ 104) * 2000) = (6940401891530027 / 2 ^ 93)"
  by (subst fl_eval[where e = "-93"]) (simp_all add: round_even_def Let_def)

lemma fl_3_7_5: "fl ((6940401891530027 / 2 ^ 93) / 2000) = (7106971536926748 / 2 ^ 104)"
  by (subst fl_eval[where e = "-104"]) (simp_all add: round_even_def Let_def)

lemma fl_3_7_6: "fl (7106971536926748 / 2 ^ 104) = (7106971536926748 / 2 ^ 104)"
  by (subst fl_eval[where e = "-104"]) (simp_all add: round_even_def Let_def)

lemma fl_7_3_1: "fl (G64 * 7) = (4518490814798194 / 2 ^ 83)"
  by (subst fl_eval[where e = "-83"]) (simp_all add: round_even_def Let_def G64_value)

lemma fl_7_3_2: "fl ((4518490814798194 / 2 ^ 83) * 3) = (6777736222197291 / 2 ^ 82)"
  by (subst fl_eval[where e = "-82"]) (simp_all add: round_even_def Let_def)

lemma fl_7_3_3: "fl ((6777736222197291 / 2 ^ 82) / 4000000) = (7106971536926747 / 2 ^ 104)"
  by (subst fl_eval[where e = "-104"]) (simp_all add: round_even_def Let_def)

lemma fl_7_3_4: "fl ((7106971536926747 / 2 ^ 104) * (- 2000)) = (- (6940401891530026 / 2 ^ 93))"
  by (subst fl_eval[where e = "-93"]) (simp_all add: round_even_def Let_def)

lemma fl_7_3_5: "fl ((- (6940401891530026 / 2 ^ 93)) / 2000) = (- (7106971536926747 / 2 ^ 104))"
  by (subst fl_eval[where e = "-104"]) (simp_all add: round_even_def Let_def)

lemma fl_7_3_6: "fl (- (7106971536926747 / 2 ^ 104)) = (- (7106971536926747 / 2 ^ 104))"
  by (subst fl_eval[where e = "-104"]) (simp_all add: round_even_def Let_def)

lemma fl_3_5_1: "fl (G64 * 3) = (7745984253939762 / 2 ^ 85)"
  by (subst fl_eval[where e = "-85"]) (simp_all add: round_even_def Let_def G64_value)

lemma fl_3_5_2: "fl ((7745984253939762 / 2 ^ 85) * 5) = (4841240158712351 / 2 ^ 82)"
  by (subst fl_eval[where e = "-82"]) (simp_all add: round_even_def Let_def)

lemma fl_5_3_1: "fl (G64 * 5) = (6454986878283135 / 2 ^ 84)"
  by (subst fl_eval[where e = "-84"]) (simp_all add: round_even_def Let_def G64_value)

lemma fl_5_3_2: "fl ((6454986878283135 / 2 ^ 84) * 3) = (4841240158712351 / 2 ^ 82)"
  by (subst fl_eval[where e = "-82"]) (simp_all add: round_even_def Let_def)

lemma fl_2000: "fl 2000 = 2000"
  by (subst fl_eval[where e = "- 42"]) (simp_all add: round_even_def Let_def)

lemma fl_4000000: "fl 4000000 = 4000000"
  by (subst fl_eval[where e = "- 31"]) (simp_all add: round_even_def Let_def)

lemma fl_0: "fl 0 = 0"
  by (simp add: fl_def)

lemma force_step_fl_axis:
  "force_step_fl (Body 0 0 0 0 m1 1 (0, 0, 0) ''a'') (Body 2000 0 0 0 m2 1 (0, 0, 0) ''b'') (0, 0)
     = Inr (fl (fl (fl (fl (fl (fl (G64 * m1) * m2) / 4000000) * 2000) / 2000)), 0)"
  "force_step_fl (Body 2000 0 0 0 m2 1 (0, 0, 0) ''b'') (Body 0 0 0 0 m1 1 (0, 0, 0) ''a'') (0, 0)
     = Inr (fl (fl (fl (fl (fl (fl (G64 * m2) * m1) / 4000000) * (- 2000)) / 2000)), 0)"
  by (simp_all add: force_step_fl_eq Body_def fl_2000 fl_4000000 fl_0 fl_minus sqrt_4000000)

text \<open>Masses 3 and 5, 2000 m apart on the x axis: the two rounded products agree.\<close>

theorem force_step_fl_newton3_witness:
  "fl (fl (G64 * 3) * 5) = fl (fl (G64 * 5) * 3)
   \<and> (\<exists>gx gy.
         force_step_fl (Body 0 0 0 0 3 1 (0, 0, 0) ''a'') (Body 2000 0 0 0 5 1 (0, 0, 0) ''b'') (0, 0)
           = Inr (gx, gy)
       \<and> force_step_fl (Body 2000 0 0 0 5 1 (0, 0, 0) ''b'') (Body 0 0 0 0 3 1 (0, 0, 0) ''a'') (0, 0)
           = Inr (- gx, - gy))"
proof -
  have h: "fl (fl (G64 * 3) * 5) = fl (fl (G64 * 5) * 3)"
    unfolding fl_3_5_1 fl_3_5_2 fl_5_3_1 fl_5_3_2 by (rule refl)
  have m: "mass (Body 0 0 0 0 3 1 (0, 0, 0) ''a'') = 3"
    "mass (Body 2000 0 0 0 5 1 (0, 0, 0) ''b'') = 5"
    by (simp_all add: Body_def)
  from force_step_fl_newton3 [where a = "Body 0 0 0 0 3 1 (0, 0, 0) ''a''"
      and b = "Body 2000 0 0 0 5 1 (0, 0, 0) ''b''"]
  obtain gx gy hx hy where
    ab: "force_step_fl (Body 0 0 0 0 3 1 (0, 0, 0) ''a'') (Body 2000 0 0 0 5 1 (0, 0, 0) ''b'') (0, 0)
           = Inr (gx, gy)"
    and ba: "force_step_fl (Body 2000 0 0 0 5 1 (0, 0, 0) ''b'') (Body 0 0 0 0 3 1 (0, 0, 0) ''a'') (0, 0)
           = Inr (hx, hy)"
    and i: "fl (fl (G64 * mass (Body 0 0 0 0 3 1 (0, 0, 0) ''a''))
                  * mass (Body 2000 0 0 0 5 1 (0, 0, 0) ''b''))
            = fl (fl (G64 * mass (Body 2000 0 0 0 5 1 (0, 0, 0) ''b''))
                  * mass (Body 0 0 0 0 3 1 (0, 0, 0) ''a'')) \<longrightarrow>
            hx = - gx \<and> hy = - gy"
    by blast
  from i h have "hx = - gx \<and> hy = - gy" unfolding m by blast
  with ab ba h show ?thesis by blast
qed

text \<open>
  C9 as the spec states it fails on the forces the code computes. Masses 3 and 7,
  2000 m apart: the force on the first body is \<open>3.5040075e-16\<close> N along x, the force
  on the second one is \<open>-3.5040074999999995e-16\<close> N, one unit in the last place less in
  magnitude, since \<open>(G * 3) * 7\<close> and \<open>(G * 7) * 3\<close> round to different doubles.
\<close>

theorem newton3_rounding_counterexample:
  "force_step_fl (Body 0 0 0 0 3 1 (0, 0, 0) ''a'') (Body 2000 0 0 0 7 1 (0, 0, 0) ''b'') (0, 0)
     = Inr (7106971536926748 / 2 ^ 104, 0)
   \<and> force_step_fl (Body 2000 0 0 0 7 1 (0, 0, 0) ''b'') (Body 0 0 0 0 3 1 (0, 0, 0) ''a'') (0, 0)
     = Inr (- (7106971536926747 / 2 ^ 104), 0)
   \<and> (7106971536926748 / 2 ^ 104 :: real) \<noteq> 7106971536926747 / 2 ^ 104"
proof -
  have ab: "force_step_fl (Body 0 0 0 0 3 1 (0, 0, 0) ''a'') (Body 2000 0 0 0 7 1 (0, 0, 0) ''b'') (0, 0)
     = Inr (7106971536926748 / 2 ^ 104, 0)"
    unfolding force_step_fl_axis fl_3_7_1 fl_3_7_2 fl_3_7_3 fl_3_7_4 fl_3_7_5 fl_3_7_6
    by (rule refl)
  have ba: "force_step_fl (Body 2000 0 0 0 7 1 (0, 0, 0) ''b'') (Body 0 0 0 0 3 1 (0, 0, 0) ''a'') (0, 0)
     = Inr (- (7106971536926747 / 2 ^ 104), 0)"
    unfolding force_step_fl_axis fl_7_3_1 fl_7_3_2 fl_7_3_3 fl_7_3_4 fl_7_3_5 fl_7_3_6
    by (rule refl)
  have ne: "(7106971536926748 / 2 ^ 104 :: real) \<noteq> 7106971536926747 / 2 ^ 104"
    by simp
  show ?thesis using ab ba ne by blast
qed

section \<open>The event loop\<close>

lemma init_bodies_planets:
  "\<exists>bs. init_bodies planets_data = Inr bs \<and> length bs = 10
        \<and> (\<forall>b \<in> set bs. mass b \<noteq> 0 \<and> trail b = [])"
  by (simp add: planets_data_def get_initial_conditions_def truediv_def math_sqrt_def
        default_central_mass_def G_def Body_def Let_def)

lemma handle_event_cases:
  "handle_event ev s = Inr s' \<Longrightarrow>
     (\<not> is_reset_click ev \<longrightarrow> bodies s' = bodies s)
   \<and> (is_reset_click ev \<longrightarrow> init_bodies planets_data = Inr (bodies s') \<and> trail_reset s')
   \<and> (trail_reset s \<longrightarrow> trail_reset s')
   \<and> ((panning s \<longrightarrow> last_mouse_pos s \<noteq> None) \<longrightarrow> (panning s' \<longrightarrow> last_mouse_pos s' \<noteq> None))"
  by (cases ev)
     (auto simp: reset_simulation_def split: key.splits if_splits sum.splits option.splits)

lemma handle_event_total:
  "panning s \<longrightarrow> last_mouse_pos s \<noteq> None \<Longrightarrow> \<exists>s'. handle_event ev s = Inr s'"
  using init_bodies_planets
  by (cases ev) (auto simp: reset_simulation_def split: key.splits option.splits)

lemma handle_event_pred:
  assumes "handle_event ev s = Inr s'"
    and "\<And>bs0. init_bodies planets_data = Inr bs0 \<Longrightarrow> \<forall>b \<in> set bs0. P b"
    and "\<forall>b \<in> set (bodies s). P b"
  shows "\<forall>b \<in> set (bodies s'). P b"
proof (cases "is_reset_click ev")
  case True
  then have "init_bodies planets_data = Inr (bodies s')"
    using handle_event_cases[OF assms(1)] by blast
  then show ?thesis by (rule assms(2))
next
  case False
  then have "bodies s' = bodies s"
    using handle_event_cases[OF assms(1)] by blast
  then show ?thesis using assms(3) by simp
qed

lemma handle_events_inv:
  "handle_events evs s = Inr s' \<Longrightarrow> panning s \<longrightarrow> last_mouse_pos s \<noteq> None \<Longrightarrow>
   panning s' \<longrightarrow> last_mouse_pos s' \<noteq> None"
proof (induction evs arbitrary: s)
  case Nil
  then show ?case by simp
next
  case (Cons ev evs)
  from Cons.prems(1) obtain s1 where
    1: "handle_event ev s = Inr s1" and 2: "handle_events evs s1 = Inr s'"
    by (auto split: sum.splits)
  have "panning s1 \<longrightarrow> last_mouse_pos s1 \<noteq> None"
    using handle_event_cases[OF 1] Cons.prems(2) by blast
  then show ?case by (rule Cons.IH[OF 2])
qed

lemma handle_events_total:
  "panning s \<longrightarrow> last_mouse_pos s \<noteq> None \<Longrightarrow> \<exists>s'. handle_events evs s = Inr s'"
proof (induction evs arbitrary: s)
  case Nil
  show ?case by simp
next
  case (Cons ev evs)
  obtain s1 where 1: "handle_event ev s = Inr s1"
    using handle_event_total[OF Cons.prems] by blast
  have "panning s1 \<longrightarrow> last_mouse_pos s1 \<noteq> None"
    using handle_event_cases[OF 1] Cons.prems by blast
  from Cons.IH[OF this] show ?case using 1 by simp
qed

lemma handle_events_trail_reset_mono:
  "handle_events evs s = Inr s' \<Longrightarrow> trail_reset s \<Longrightarrow> trail_reset s'"
proof (induction evs arbitrary: s)
  case Nil
  then show ?case by simp
next
  case (Cons ev evs)
  from Cons.prems(1) obtain s1 where
    1: "handle_event ev s = Inr s1" and 2: "handle_events evs s1 = Inr s'"
    by (auto split: sum.splits)
  have "trail_reset s1" using handle_event_cases[OF 1] Cons.prems(2) by blast
  then show ?case by (rule Cons.IH[OF 2])
qed

lemma handle_events_quiet_bodies:
  "handle_events evs s = Inr s' \<Longrightarrow> \<not> trail_reset s' \<Longrightarrow> bodies s' = bodies s"
proof (induction evs arbitrary: s)
  case Nil
  then show ?case by simp
next
  case (Cons ev evs)
  from Cons.prems(1) obtain s1 where
    1: "handle_event ev s = Inr s1" and 2: "handle_events evs s1 = Inr s'"
    by (auto split: sum.splits)
  have nt: "\<not> trail_reset s1"
    using handle_events_trail_reset_mono[OF 2] Cons.prems(2) by blast
  then have "\<not> is_reset_click ev" using handle_event_cases[OF 1] by blast
  then have "bodies s1 = bodies s" using handle_event_cases[OF 1] by blast
  then show ?case using Cons.IH[OF 2 Cons.prems(2)] by simp
qed

lemma handle_events_pred:
  assumes "handle_events evs s = Inr s'"
    and "\<And>bs0. init_bodies planets_data = Inr bs0 \<Longrightarrow> \<forall>b \<in> set bs0. P b"
    and "\<forall>b \<in> set (bodies s). P b"
  shows "\<forall>b \<in> set (bodies s'). P b"
  using assms(1,3)
proof (induction evs arbitrary: s)
  case Nil
  then show ?case by simp
next
  case (Cons ev evs)
  from Cons.prems(1) obtain s1 where
    1: "handle_event ev s = Inr s1" and 2: "handle_events evs s1 = Inr s'"
    by (auto split: sum.splits)
  have "\<forall>b \<in> set (bodies s1). P b"
    using handle_event_pred[OF 1 assms(2) Cons.prems(2)] by blast
  then show ?case by (rule Cons.IH[OF 2])
qed

section \<open>The loop over the bodies, the frame and the main loop\<close>

lemma trail_append_length:
  "length (trail_append tr p) = (if 200 \<le> length tr then length tr else length tr + 1)"
  by (simp add: trail_append_def Let_def)

lemma trail_append_fifo:
  "trail_append tr p = (if 200 \<le> length tr then tl tr else tr) @ [p]"
  by (cases tr) (simp_all add: trail_append_def Let_def)

lemma update_position_total:
  assumes "mass (bs ! i) \<noteq> 0"
  shows "\<exists>b'. update_position zm cam_x cam_y i bs = Inr b'"
proof -
  obtain fx fy where "force_loop (bs ! i) i 0 bs (0, 0) = Inr (fx, fy)"
    using force_loop_total[of "bs ! i" i 0 bs "(0, 0)"] by auto
  then show ?thesis using assms
    by (simp add: update_position_def truediv_def Let_def)
qed

lemma update_position_fields:
  assumes "update_position zm cam_x cam_y i bs = Inr b'"
  shows "mass b' = mass (bs ! i) \<and> mass (bs ! i) \<noteq> 0
       \<and> trail b' = trail_append (trail (bs ! i)) (screen_pos zm cam_x cam_y (body_x b') (body_y b'))"
  using assms
  by (auto simp: update_position_def truediv_def Let_def integrate_def
           split: sum.splits if_splits prod.splits)

lemma loop_body_eq:
  assumes "loop_body i s = Inr s'"
  shows "\<exists>b. update_position (zoomed s) (camera_x s) (camera_y s) i (bodies s) = Inr b
           \<and> s' = s\<lparr>bodies := (bodies s)[i := (if trail_reset s then b\<lparr>trail := []\<rparr> else b)]\<rparr>"
  using assms by (auto simp: loop_body_def split: sum.splits)

lemma loop_body_total:
  assumes "mass (bodies s ! i) \<noteq> 0"
  shows "\<exists>s'. loop_body i s = Inr s'"
  using update_position_total[OF assms, of "zoomed s" "camera_x s" "camera_y s"]
  by (auto simp: loop_body_def)

text \<open>The loop over a list of distinct indices: the view, the masses, the trails.\<close>

lemma bodies_loop_effect:
  assumes "bodies_loop ixs s = Inr s'"
    and "distinct ixs"
    and "\<forall>i \<in> set ixs. i < length (bodies s)"
  shows "s'\<lparr>bodies := bodies s\<rparr> = s
       \<and> length (bodies s') = length (bodies s)
       \<and> (\<forall>j < length (bodies s).
             mass (bodies s' ! j) = mass (bodies s ! j)
           \<and> (j \<in> set ixs \<longrightarrow> mass (bodies s ! j) \<noteq> 0)
           \<and> length (trail (bodies s' ! j)) =
               (if j \<in> set ixs then
                  (if trail_reset s then 0
                   else if 200 \<le> length (trail (bodies s ! j)) then length (trail (bodies s ! j))
                   else length (trail (bodies s ! j)) + 1)
                else length (trail (bodies s ! j))))"
  using assms
proof (induction ixs arbitrary: s)
  case Nil
  then show ?case by simp
next
  case (Cons i ixs)
  from Cons.prems(1) obtain s1 where
    1: "loop_body i s = Inr s1" and 2: "bodies_loop ixs s1 = Inr s'"
    by (auto split: sum.splits)
  from loop_body_eq[OF 1] obtain b where
    u: "update_position (zoomed s) (camera_x s) (camera_y s) i (bodies s) = Inr b"
    and s1: "s1 = s\<lparr>bodies := (bodies s)[i := (if trail_reset s then b\<lparr>trail := []\<rparr> else b)]\<rparr>"
    by blast
  have len1: "length (bodies s1) = length (bodies s)" by (simp add: s1)
  have tr1: "trail_reset s1 = trail_reset s" by (simp add: s1)
  have d: "distinct ixs" and ni: "i \<notin> set ixs" using Cons.prems(2) by simp_all
  have il: "i < length (bodies s)" using Cons.prems(3) by simp
  have b3: "\<forall>i \<in> set ixs. i < length (bodies s1)" using Cons.prems(3) len1 by simp
  note ih = Cons.IH[OF 2 d b3]
  note f = update_position_fields[OF u]
  have view: "s'\<lparr>bodies := bodies s\<rparr> = s"
  proof -
    have "s'\<lparr>bodies := bodies s1\<rparr> = s1" using ih by blast
    then have "(s'\<lparr>bodies := bodies s1\<rparr>)\<lparr>bodies := bodies s\<rparr> = s1\<lparr>bodies := bodies s\<rparr>" by simp
    then show ?thesis by (simp add: s1)
  qed
  have len: "length (bodies s') = length (bodies s)" using ih len1 by simp
  have each: "\<forall>j < length (bodies s).
             mass (bodies s' ! j) = mass (bodies s ! j)
           \<and> (j \<in> set (i # ixs) \<longrightarrow> mass (bodies s ! j) \<noteq> 0)
           \<and> length (trail (bodies s' ! j)) =
               (if j \<in> set (i # ixs) then
                  (if trail_reset s then 0
                   else if 200 \<le> length (trail (bodies s ! j)) then length (trail (bodies s ! j))
                   else length (trail (bodies s ! j)) + 1)
                else length (trail (bodies s ! j)))"
  proof (intro allI impI)
    fix j assume jl: "j < length (bodies s)"
    then have jl1: "j < length (bodies s1)" using len1 by simp
    from ih jl1 have ihj:
      "mass (bodies s' ! j) = mass (bodies s1 ! j)
       \<and> (j \<in> set ixs \<longrightarrow> mass (bodies s1 ! j) \<noteq> 0)
       \<and> length (trail (bodies s' ! j)) =
               (if j \<in> set ixs then
                  (if trail_reset s1 then 0
                   else if 200 \<le> length (trail (bodies s1 ! j)) then length (trail (bodies s1 ! j))
                   else length (trail (bodies s1 ! j)) + 1)
                else length (trail (bodies s1 ! j)))"
      by blast
    show "mass (bodies s' ! j) = mass (bodies s ! j)
           \<and> (j \<in> set (i # ixs) \<longrightarrow> mass (bodies s ! j) \<noteq> 0)
           \<and> length (trail (bodies s' ! j)) =
               (if j \<in> set (i # ixs) then
                  (if trail_reset s then 0
                   else if 200 \<le> length (trail (bodies s ! j)) then length (trail (bodies s ! j))
                   else length (trail (bodies s ! j)) + 1)
                else length (trail (bodies s ! j)))"
    proof (cases "j = i")
      case True
      have bj: "bodies s1 ! j = (if trail_reset s then b\<lparr>trail := []\<rparr> else b)"
        using True il by (simp add: s1)
      show ?thesis using ihj ni True f bj
        by (simp add: trail_append_length)
    next
      case False
      have bj: "bodies s1 ! j = bodies s ! j" using False by (simp add: s1)
      show ?thesis using ihj False bj tr1 by simp
    qed
  qed
  show ?case using view len each by blast
qed

lemma bodies_loop_total:
  assumes "\<forall>b \<in> set (bodies s). mass b \<noteq> 0"
    and "\<forall>i \<in> set ixs. i < length (bodies s)"
  shows "\<exists>s'. bodies_loop ixs s = Inr s'"
  using assms
proof (induction ixs arbitrary: s)
  case Nil
  show ?case by simp
next
  case (Cons i ixs)
  have il: "i < length (bodies s)" using Cons.prems(2) by simp
  then have "mass (bodies s ! i) \<noteq> 0" using Cons.prems(1) by simp
  from loop_body_total[OF this] obtain s1 where 1: "loop_body i s = Inr s1" by blast
  from loop_body_eq[OF 1] obtain b where
    u: "update_position (zoomed s) (camera_x s) (camera_y s) i (bodies s) = Inr b"
    and s1: "s1 = s\<lparr>bodies := (bodies s)[i := (if trail_reset s then b\<lparr>trail := []\<rparr> else b)]\<rparr>"
    by blast
  have mb: "mass (if trail_reset s then b\<lparr>trail := []\<rparr> else b) \<noteq> 0"
    using update_position_fields[OF u] by simp
  have "set (bodies s1) \<subseteq> insert (if trail_reset s then b\<lparr>trail := []\<rparr> else b) (set (bodies s))"
    unfolding s1 by (simp add: set_update_subset_insert)
  then have m1: "\<forall>b \<in> set (bodies s1). mass b \<noteq> 0"
    using mb Cons.prems(1) by blast
  have l1: "\<forall>i \<in> set ixs. i < length (bodies s1)" using Cons.prems(2) by (simp add: s1)
  from Cons.IH[OF m1 l1] show ?case using 1 by simp
qed


text \<open>A frame: the events, then the loop over all bodies, then the flag is cleared.\<close>

lemma frame_effect:
  assumes "frame evs s = Inr s'"
  shows "\<exists>s1. handle_events evs s = Inr s1
       \<and> s'\<lparr>bodies := bodies s1, trail_reset := trail_reset s1\<rparr> = s1
       \<and> \<not> trail_reset s'
       \<and> length (bodies s') = length (bodies s1)
       \<and> (\<forall>j < length (bodies s1).
             mass (bodies s' ! j) = mass (bodies s1 ! j)
           \<and> mass (bodies s1 ! j) \<noteq> 0
           \<and> length (trail (bodies s' ! j)) =
               (if trail_reset s1 then 0
                else if 200 \<le> length (trail (bodies s1 ! j)) then length (trail (bodies s1 ! j))
                else length (trail (bodies s1 ! j)) + 1))"
proof -
  from assms obtain s1 s2 where
    1: "handle_events evs s = Inr s1"
    and 2: "bodies_loop [0..<length (bodies s1)] s1 = Inr s2"
    and 3: "s' = s2\<lparr>trail_reset := False\<rparr>"
    by (auto simp: frame_def split: sum.splits)
  have e: "s2\<lparr>bodies := bodies s1\<rparr> = s1
       \<and> length (bodies s2) = length (bodies s1)
       \<and> (\<forall>j < length (bodies s1).
             mass (bodies s2 ! j) = mass (bodies s1 ! j)
           \<and> (j \<in> set [0..<length (bodies s1)] \<longrightarrow> mass (bodies s1 ! j) \<noteq> 0)
           \<and> length (trail (bodies s2 ! j)) =
               (if j \<in> set [0..<length (bodies s1)] then
                  (if trail_reset s1 then 0
                   else if 200 \<le> length (trail (bodies s1 ! j)) then length (trail (bodies s1 ! j))
                   else length (trail (bodies s1 ! j)) + 1)
                else length (trail (bodies s1 ! j))))"
    by (rule bodies_loop_effect[OF 2]) simp_all
  have v: "s'\<lparr>bodies := bodies s1, trail_reset := trail_reset s1\<rparr> = s1"
  proof -
    have "s2\<lparr>bodies := bodies s1\<rparr> = s1" using e by blast
    then have "trail_reset s2 = trail_reset s1 \<and> zoomed s2 = zoomed s1 \<and> camera_x s2 = camera_x s1
          \<and> camera_y s2 = camera_y s1 \<and> panning s2 = panning s1
          \<and> last_mouse_pos s2 = last_mouse_pos s1 \<and> running s2 = running s1"
      by (metis sim.select_convs(2-8) sim.surjective sim.update_convs(1))
    then show ?thesis unfolding 3 by (cases s1, cases s2) simp
  qed
  have t: "\<not> trail_reset s'" by (simp add: 3)
  have l: "length (bodies s') = length (bodies s1)" using e by (simp add: 3)
  have j: "\<forall>j < length (bodies s1).
             mass (bodies s' ! j) = mass (bodies s1 ! j)
           \<and> mass (bodies s1 ! j) \<noteq> 0
           \<and> length (trail (bodies s' ! j)) =
               (if trail_reset s1 then 0
                else if 200 \<le> length (trail (bodies s1 ! j)) then length (trail (bodies s1 ! j))
                else length (trail (bodies s1 ! j)) + 1)"
    using e by (simp add: 3)
  show ?thesis using 1 v t l j by blast
qed

lemma frame_total:
  assumes "panning s \<longrightarrow> last_mouse_pos s \<noteq> None"
    and "\<forall>b \<in> set (bodies s). mass b \<noteq> 0"
  shows "\<exists>s'. frame evs s = Inr s'"
proof -
  obtain s1 where 1: "handle_events evs s = Inr s1"
    using handle_events_total[OF assms(1)] by blast
  have m: "\<forall>b \<in> set (bodies s1). mass b \<noteq> 0"
    using handle_events_pred[OF 1 _ assms(2)] init_bodies_planets by fastforce
  obtain s2 where 2: "bodies_loop [0..<length (bodies s1)] s1 = Inr s2"
    using bodies_loop_total[OF m, of "[0..<length (bodies s1)]"] by auto
  show ?thesis using 1 2 by (simp add: frame_def)
qed


lemma frame_inv:
  assumes "frame evs s = Inr s'" and "panning s \<longrightarrow> last_mouse_pos s \<noteq> None"
  shows "panning s' \<longrightarrow> last_mouse_pos s' \<noteq> None"
proof -
  from frame_effect[OF assms(1)] obtain s1 where
    1: "handle_events evs s = Inr s1"
    and v: "s'\<lparr>bodies := bodies s1, trail_reset := trail_reset s1\<rparr> = s1"
    by blast
  have "panning s1 \<longrightarrow> last_mouse_pos s1 \<noteq> None"
    by (rule handle_events_inv[OF 1 assms(2)])
  moreover have "panning s' = panning s1 \<and> last_mouse_pos s' = last_mouse_pos s1"
    by (metis v sim.select_convs(5,6) sim.surjective sim.update_convs(1,8))
  ultimately show ?thesis by simp
qed

lemma frame_masses:
  assumes "frame evs s = Inr s'"
  shows "\<forall>b \<in> set (bodies s'). mass b \<noteq> 0"
proof
  fix b assume "b \<in> set (bodies s')"
  then obtain j where j: "j < length (bodies s')" and b: "b = bodies s' ! j"
    by (auto simp: in_set_conv_nth)
  from frame_effect[OF assms] j b show "mass b \<noteq> 0" by auto
qed

lemma frame_trails:
  assumes "frame evs s = Inr s'" and "handle_events evs s = Inr s1"
    and "\<forall>b \<in> set (bodies s1). length (trail b) = n"
  shows "\<forall>b \<in> set (bodies s').
           length (trail b) = (if trail_reset s1 then 0 else if 200 \<le> n then n else n + 1)"
proof
  fix b assume "b \<in> set (bodies s')"
  then obtain j where j: "j < length (bodies s')" and b: "b = bodies s' ! j"
    by (auto simp: in_set_conv_nth)
  from frame_effect[OF assms(1)] assms(2) have
    l: "length (bodies s') = length (bodies s1)"
    and e: "\<forall>j < length (bodies s1). length (trail (bodies s' ! j)) =
               (if trail_reset s1 then 0
                else if 200 \<le> length (trail (bodies s1 ! j)) then length (trail (bodies s1 ! j))
                else length (trail (bodies s1 ! j)) + 1)"
    by auto
  have "length (trail (bodies s1 ! j)) = n" using assms(3) j l by simp
  then show "length (trail b) = (if trail_reset s1 then 0 else if 200 \<le> n then n else n + 1)"
    using e j l b by simp
qed

lemma frame_trails_bound:
  assumes "frame evs s = Inr s'" and "\<forall>b \<in> set (bodies s). length (trail b) \<le> 200"
  shows "\<forall>b \<in> set (bodies s'). length (trail b) \<le> 200"
proof
  fix b assume "b \<in> set (bodies s')"
  then obtain j where j: "j < length (bodies s')" and b: "b = bodies s' ! j"
    by (auto simp: in_set_conv_nth)
  from frame_effect[OF assms(1)] obtain s1 where
    1: "handle_events evs s = Inr s1"
    and l: "length (bodies s') = length (bodies s1)"
    and e: "\<forall>j < length (bodies s1). length (trail (bodies s' ! j)) =
               (if trail_reset s1 then 0
                else if 200 \<le> length (trail (bodies s1 ! j)) then length (trail (bodies s1 ! j))
                else length (trail (bodies s1 ! j)) + 1)"
    by blast
  have "\<forall>b \<in> set (bodies s1). length (trail b) \<le> 200"
    using handle_events_pred[OF 1 _ assms(2)] init_bodies_planets by fastforce
  then have "length (trail (bodies s1 ! j)) \<le> 200" using j l by simp
  then show "length (trail b) \<le> 200" using e j l b by simp
qed

lemma main_loop_inv:
  "main_loop fs s = Inr s' \<Longrightarrow> panning s \<longrightarrow> last_mouse_pos s \<noteq> None \<Longrightarrow>
   panning s' \<longrightarrow> last_mouse_pos s' \<noteq> None"
proof (induction fs arbitrary: s)
  case Nil
  then show ?case by simp
next
  case (Cons evs fs)
  show ?case
  proof (cases "running s")
    case True
    with Cons.prems(1) obtain s1 where
      1: "frame evs s = Inr s1" and 2: "main_loop fs s1 = Inr s'"
      by (auto split: sum.splits)
    show ?thesis by (rule Cons.IH[OF 2 frame_inv[OF 1 Cons.prems(2)]])
  next
    case False
    with Cons.prems show ?thesis by simp
  qed
qed

lemma main_loop_total:
  "panning s \<longrightarrow> last_mouse_pos s \<noteq> None \<Longrightarrow> \<forall>b \<in> set (bodies s). mass b \<noteq> 0 \<Longrightarrow>
   \<exists>s'. main_loop fs s = Inr s'"
proof (induction fs arbitrary: s)
  case Nil
  show ?case by simp
next
  case (Cons evs fs)
  obtain s1 where 1: "frame evs s = Inr s1"
    using frame_total[OF Cons.prems] by blast
  from Cons.IH[OF frame_inv[OF 1 Cons.prems(1)] frame_masses[OF 1]]
  show ?case using 1 by simp
qed

lemma main_loop_trails_bound:
  "main_loop fs s = Inr s' \<Longrightarrow> \<forall>b \<in> set (bodies s). length (trail b) \<le> 200 \<Longrightarrow>
   \<forall>b \<in> set (bodies s'). length (trail b) \<le> 200"
proof (induction fs arbitrary: s)
  case Nil
  then show ?case by simp
next
  case (Cons evs fs)
  show ?case
  proof (cases "running s")
    case True
    with Cons.prems(1) obtain s1 where
      1: "frame evs s = Inr s1" and 2: "main_loop fs s1 = Inr s'"
      by (auto split: sum.splits)
    show ?thesis by (rule Cons.IH[OF 2 frame_trails_bound[OF 1 Cons.prems(2)]])
  next
    case False
    with Cons.prems show ?thesis by simp
  qed
qed

lemma main_loop_quiet_count:
  "main_loop fs s = Inr s' \<Longrightarrow> quiet_frames fs s \<Longrightarrow>
   \<forall>b \<in> set (bodies s). length (trail b) = n \<Longrightarrow>
   \<forall>b \<in> set (bodies s'). length (trail b) = (if 200 \<le> n then n else min 200 (n + length fs))"
proof (induction fs arbitrary: s n)
  case Nil
  then show ?case by simp
next
  case (Cons evs fs)
  from Cons.prems(2) have r: "running s" by simp
  from Cons.prems(2) obtain s1 where
    1: "handle_events evs s = Inr s1" and q: "\<not> trail_reset s1"
    by (auto split: sum.splits)
  from Cons.prems(2) obtain s2 where
    2: "frame evs s = Inr s2" and q2: "quiet_frames fs s2"
    by (auto split: sum.splits)
  have 3: "main_loop fs s2 = Inr s'" using Cons.prems(1) r 2 by simp
  have "bodies s1 = bodies s" by (rule handle_events_quiet_bodies[OF 1 q])
  then have "\<forall>b \<in> set (bodies s1). length (trail b) = n" using Cons.prems(3) by simp
  from frame_trails[OF 2 1 this] q
  have t2: "\<forall>b \<in> set (bodies s2). length (trail b) = (if 200 \<le> n then n else n + 1)"
    by simp
  from Cons.IH[OF 3 q2 t2] show ?case
    by (auto split: if_splits)
qed

lemma initial_sim_eq:
  "\<exists>bs. init_bodies planets_data = Inr bs \<and> length bs = 10
      \<and> (\<forall>b \<in> set bs. mass b \<noteq> 0 \<and> trail b = [])
      \<and> initial_sim =
           Inr \<lparr>bodies = bs, zoomed = False, camera_x = 0, camera_y = 0, panning = False,
                last_mouse_pos = None, running = True, trail_reset = False\<rparr>"
  using init_bodies_planets by (auto simp: initial_sim_def)

lemma script_total: "\<exists>s. script fs = Inr s"
proof -
  from initial_sim_eq obtain s0 where
    0: "initial_sim = Inr s0" and p: "\<not> panning s0" and m: "\<forall>b \<in> set (bodies s0). mass b \<noteq> 0"
    by fastforce
  from p have "panning s0 \<longrightarrow> last_mouse_pos s0 \<noteq> None" by simp
  from main_loop_total[OF this m, of fs] show ?thesis unfolding script_def 0 by simp
qed

section \<open>Events and the bodies\<close>

text \<open>
  C10. An event that is not a click of the primary button on the reset control leaves
  the list of bodies as it is (positions, velocities, masses, radii and trails), and
  unless it is \<open>QUIT\<close> it leaves \<open>running\<close> as it is: only \<open>zoomed\<close>, the camera offset,
  \<open>panning\<close>, \<open>last_mouse_pos\<close> and \<open>trail_reset\<close> can change. The one way such an event
  can raise is a pointer move while \<open>panning\<close> is set and \<open>last_mouse_pos\<close> is \<open>None\<close>, a
  state that no run reaches (see C7).
\<close>

theorem view_events_keep_bodies:
  assumes "\<not> is_reset_click ev"
  shows "(case handle_event ev s of
            Inr s' \<Rightarrow> bodies s' = bodies s \<and> (ev \<noteq> QUIT \<longrightarrow> running s' = running s)
          | Inl err \<Rightarrow> err = TypeError \<and> panning s \<and> last_mouse_pos s = None
                        \<and> (\<exists>p. ev = MOUSEMOTION p))"
  using assms
  by (cases ev) (auto split: key.splits option.splits)

text \<open>The zoom key, and a pointer move while panning.\<close>

theorem view_events_keep_bodies_witness:
  "handle_event (KEYDOWN K_z)
     \<lparr>bodies = [Body 1 2 3 4 5 6 (7, 8, 9) ''a''], zoomed = False, camera_x = 0, camera_y = 0,
      panning = False, last_mouse_pos = None, running = True, trail_reset = False\<rparr>
   = Inr \<lparr>bodies = [Body 1 2 3 4 5 6 (7, 8, 9) ''a''], zoomed = True, camera_x = 0, camera_y = 0,
      panning = False, last_mouse_pos = None, running = True, trail_reset = True\<rparr>
   \<and> handle_event (MOUSEMOTION (30, 40))
     \<lparr>bodies = [Body 1 2 3 4 5 6 (7, 8, 9) ''a''], zoomed = False, camera_x = 0, camera_y = 0,
      panning = True, last_mouse_pos = Some (50, 50), running = True, trail_reset = False\<rparr>
   = Inr \<lparr>bodies = [Body 1 2 3 4 5 6 (7, 8, 9) ''a''], zoomed = False, camera_x = 20, camera_y = 10,
      panning = True, last_mouse_pos = Some (30, 40), running = True, trail_reset = True\<rparr>"
  using view_events_keep_bodies [of "KEYDOWN K_z"
     "\<lparr>bodies = [Body 1 2 3 4 5 6 (7, 8, 9) ''a''], zoomed = False, camera_x = 0, camera_y = 0,
      panning = False, last_mouse_pos = None, running = True, trail_reset = False\<rparr>"]
    view_events_keep_bodies [of "MOUSEMOTION (30, 40)"
     "\<lparr>bodies = [Body 1 2 3 4 5 6 (7, 8, 9) ''a''], zoomed = False, camera_x = 0, camera_y = 0,
      panning = True, last_mouse_pos = Some (50, 50), running = True, trail_reset = False\<rparr>"]
  by simp

section \<open>The pan state\<close>

text \<open>
  C7, as the code has it. In every state that the event loop passes through in a run
  from the start, \<open>last_mouse_pos\<close> is defined whenever \<open>panning\<close> is set; a pointer-up of
  the primary button clears \<open>panning\<close> and changes nothing else, so \<open>last_mouse_pos\<close>
  keeps the last anchor; and no event raises in such a state.
\<close>

theorem panning_has_anchor:
  assumes "script fs = Inr s" and "handle_events evs s = Inr s'"
  shows "(panning s' \<longrightarrow> last_mouse_pos s' \<noteq> None)
       \<and> handle_event (MOUSEBUTTONUP 1 p) s' = Inr (s'\<lparr>panning := False\<rparr>)
       \<and> (\<forall>ev. \<exists>s''. handle_event ev s' = Inr s'')"
proof -
  from initial_sim_eq obtain s0 where
    0: "initial_sim = Inr s0" and p: "\<not> panning s0"
    by fastforce
  have m: "main_loop fs s0 = Inr s" using assms(1) unfolding script_def 0 by simp
  have "panning s \<longrightarrow> last_mouse_pos s \<noteq> None"
    using main_loop_inv[OF m] p by simp
  then have i: "panning s' \<longrightarrow> last_mouse_pos s' \<noteq> None"
    by (rule handle_events_inv[OF assms(2)])
  show ?thesis using i handle_event_total[OF i] by simp
qed

text \<open>A press away from the reset control, then a move, at the start of the script.\<close>

theorem panning_has_anchor_witness:
  "\<exists>s s'. script [] = Inr s
        \<and> handle_events [MOUSEBUTTONDOWN 1 (200, 200), MOUSEMOTION (190, 230)] s = Inr s'
        \<and> panning s' \<and> last_mouse_pos s' = Some (190, 230) \<and> last_mouse_pos s' \<noteq> None
        \<and> handle_event (MOUSEBUTTONUP 1 (190, 230)) s' = Inr (s'\<lparr>panning := False\<rparr>)"
proof -
  from initial_sim_eq obtain s0 where
    0: "initial_sim = Inr s0" and p: "\<not> panning s0"
    by fastforce
  have 1: "script [] = Inr s0" unfolding script_def 0 by simp
  have 2: "handle_events [MOUSEBUTTONDOWN 1 (200, 200), MOUSEMOTION (190, 230)] s0 =
     Inr (s0\<lparr>panning := True, last_mouse_pos := Some (200, 200),
              camera_x := camera_x s0 + 10, camera_y := camera_y s0 + (- 30),
              last_mouse_pos := Some (190, 230), trail_reset := True\<rparr>)"
    by (simp add: reset_button_def)
  show ?thesis
    using 1 2 panning_has_anchor[OF 1 2, of "(190, 230)"] by simp
qed

text \<open>
  C7 as the spec states it fails: after a press and a release of the primary button at
  \<open>(200, 200)\<close> in the first frame, \<open>panning\<close> is unset and \<open>last_mouse_pos\<close> is still
  \<open>(200, 200)\<close>.
\<close>

theorem pointer_up_keeps_anchor_counterexample:
  "\<not> isl (script [])
   \<and> \<not> isl (handle_events [MOUSEBUTTONDOWN 1 (200, 200), MOUSEBUTTONUP 1 (200, 200)]
              (projr (script [])))
   \<and> \<not> panning (projr (handle_events [MOUSEBUTTONDOWN 1 (200, 200), MOUSEBUTTONUP 1 (200, 200)]
              (projr (script []))))
   \<and> last_mouse_pos (projr (handle_events [MOUSEBUTTONDOWN 1 (200, 200), MOUSEBUTTONUP 1 (200, 200)]
              (projr (script [])))) = Some (200, 200)"
proof -
  from initial_sim_eq obtain s0 where 0: "initial_sim = Inr s0"
    by fastforce
  have 1: "script [] = Inr s0" unfolding script_def 0 by simp
  show ?thesis unfolding 1 by (simp add: reset_button_def)
qed

section \<open>Reset\<close>



section \<open>The trails\<close>

text \<open>
  C6, for the states between the calls of \<open>update_position\<close> (the append and the
  eviction inside one call are one step). The script never raises and no trail is
  longer than 200 after any run of frames; the trails are empty at the start; a run
  of frames keeps the bound; after \<open>N\<close> frames none of which signalled a reset, from a
  state with empty trails, every trail has length \<open>min N 200\<close>; a frame whose events
  signalled a reset ends with all trails empty; and \<open>update_position\<close> appends the new
  point at the end, after dropping the oldest point when 200 are there.
\<close>

theorem trail_length:
  "(\<exists>s0. script fs = Inr s0 \<and> (\<forall>b \<in> set (bodies s0). length (trail b) \<le> 200))
   \<and> (script [] = Inr s \<longrightarrow> (\<forall>b \<in> set (bodies s). trail b = []))
   \<and> ((\<forall>b \<in> set (bodies s). length (trail b) \<le> 200) \<and> main_loop fs s = Inr s' \<longrightarrow>
        (\<forall>b \<in> set (bodies s'). length (trail b) \<le> 200))
   \<and> ((\<forall>b \<in> set (bodies s). trail b = []) \<and> quiet_frames fs s \<and> main_loop fs s = Inr s' \<longrightarrow>
        (\<forall>b \<in> set (bodies s'). length (trail b) = min (length fs) 200))
   \<and> (handle_events evs s = Inr s1 \<and> trail_reset s1 \<and> frame evs s = Inr s' \<longrightarrow>
        (\<forall>b \<in> set (bodies s'). trail b = []))
   \<and> (update_position zm cam_x cam_y i bs = Inr b' \<longrightarrow>
        trail b' = (if 200 \<le> length (trail (bs ! i)) then tl (trail (bs ! i)) else trail (bs ! i))
                     @ [screen_pos zm cam_x cam_y (body_x b') (body_y b')])"
proof (intro conjI impI)
  from initial_sim_eq obtain s0 where
    0: "initial_sim = Inr s0" and e: "\<forall>b \<in> set (bodies s0). trail b = []"
    by fastforce
  obtain sn where n: "script fs = Inr sn" using script_total by blast
  then have m: "main_loop fs s0 = Inr sn" unfolding script_def 0 by simp
  have "\<forall>b \<in> set (bodies s0). length (trail b) \<le> 200" using e by simp
  from main_loop_trails_bound[OF m this] n
  show "\<exists>s0. script fs = Inr s0 \<and> (\<forall>b \<in> set (bodies s0). length (trail b) \<le> 200)"
    by blast
next
  assume a: "script [] = Inr s"
  from initial_sim_eq obtain s0 where
    0: "initial_sim = Inr s0" and e: "\<forall>b \<in> set (bodies s0). trail b = []"
    by fastforce
  have "s = s0" using a unfolding script_def 0 by simp
  then show "\<forall>b \<in> set (bodies s). trail b = []" using e by simp
next
  assume "(\<forall>b \<in> set (bodies s). length (trail b) \<le> 200) \<and> main_loop fs s = Inr s'"
  then show "\<forall>b \<in> set (bodies s'). length (trail b) \<le> 200"
    using main_loop_trails_bound by blast
next
  assume a: "(\<forall>b \<in> set (bodies s). trail b = []) \<and> quiet_frames fs s \<and> main_loop fs s = Inr s'"
  then have "\<forall>b \<in> set (bodies s). length (trail b) = 0" by simp
  from main_loop_quiet_count[OF _ _ this, of fs s'] a
  show "\<forall>b \<in> set (bodies s'). length (trail b) = min (length fs) 200"
    by (simp add: min.commute)
next
  assume a: "handle_events evs s = Inr s1 \<and> trail_reset s1 \<and> frame evs s = Inr s'"
  have "\<forall>b \<in> set (bodies s').
           length (trail b) = (if trail_reset s1 then 0 else 0)"
  proof
    fix b assume "b \<in> set (bodies s')"
    then obtain j where j: "j < length (bodies s')" and b: "b = bodies s' ! j"
      by (auto simp: in_set_conv_nth)
    from frame_effect[of evs s s'] a j b
    show "length (trail b) = (if trail_reset s1 then 0 else 0)" by auto
  qed
  then show "\<forall>b \<in> set (bodies s'). trail b = []" by simp
next
  assume "update_position zm cam_x cam_y i bs = Inr b'"
  from update_position_fields[OF this]
  show "trail b' = (if 200 \<le> length (trail (bs ! i)) then tl (trail (bs ! i)) else trail (bs ! i))
                     @ [screen_pos zm cam_x cam_y (body_x b') (body_y b')]"
    by (simp add: trail_append_fifo)
qed

text \<open>
  One body at rest: two frames without events, then a frame with a pan key.
\<close>

theorem trail_length_witness:
  "main_loop [[], []]
     \<lparr>bodies = [Body 0 0 0 0 1 1 (0, 0, 0) ''a''], zoomed = False, camera_x = 0, camera_y = 0,
      panning = False, last_mouse_pos = None, running = True, trail_reset = False\<rparr>
   = Inr \<lparr>bodies = [(Body 0 0 0 0 1 1 (0, 0, 0) ''a'')\<lparr>trail := [(450, 300), (450, 300)]\<rparr>],
          zoomed = False, camera_x = 0, camera_y = 0,
          panning = False, last_mouse_pos = None, running = True, trail_reset = False\<rparr>
   \<and> list_all (\<lambda>b. length (trail b) = 2 \<and> length (trail b) \<le> 200)
        [(Body 0 0 0 0 1 1 (0, 0, 0) ''a'')\<lparr>trail := [(450, 300), (450, 300)]\<rparr>]
   \<and> frame [KEYDOWN K_LEFT]
     \<lparr>bodies = [(Body 0 0 0 0 1 1 (0, 0, 0) ''a'')\<lparr>trail := [(450, 300), (450, 300)]\<rparr>],
      zoomed = False, camera_x = 0, camera_y = 0,
      panning = False, last_mouse_pos = None, running = True, trail_reset = False\<rparr>
   = Inr \<lparr>bodies = [Body 0 0 0 0 1 1 (0, 0, 0) ''a''], zoomed = False, camera_x = - 50, camera_y = 0,
          panning = False, last_mouse_pos = None, running = True, trail_reset = False\<rparr>
   \<and> list_all (\<lambda>b. trail b = []) [Body 0 0 0 0 1 1 (0, 0, 0) ''a'']"
proof -
  let ?B = "Body 0 0 0 0 1 1 (0, 0, 0) ''a''"
  let ?S = "\<lparr>bodies = [?B], zoomed = False, camera_x = 0, camera_y = 0,
      panning = False, last_mouse_pos = None, running = True, trail_reset = False\<rparr>"
  let ?S2 = "\<lparr>bodies = [?B\<lparr>trail := [(450, 300), (450, 300)]\<rparr>],
      zoomed = False, camera_x = 0, camera_y = 0,
      panning = False, last_mouse_pos = None, running = True, trail_reset = False\<rparr>"
  let ?S3 = "\<lparr>bodies = [?B], zoomed = False, camera_x = - 50, camera_y = 0,
      panning = False, last_mouse_pos = None, running = True, trail_reset = False\<rparr>"
  have u: "\<And>tr. update_position False 0 0 0 [?B\<lparr>trail := tr\<rparr>]
             = Inr (?B\<lparr>trail := trail_append tr (450, 300)\<rparr>)"
    by (simp add: update_position_def Body_def truediv_def integrate_def Let_def DT_def
          screen_pos_def py_int_def current_scale_def SCALE_def WIDTH_def HEIGHT_def)
  have u50: "\<And>tr. update_position False (- 50) 0 0 [?B\<lparr>trail := tr\<rparr>]
             = Inr (?B\<lparr>trail := trail_append tr (500, 300)\<rparr>)"
    by (simp add: update_position_def Body_def truediv_def integrate_def Let_def DT_def
          screen_pos_def py_int_def current_scale_def SCALE_def WIDTH_def HEIGHT_def)
  have b0: "?B = ?B\<lparr>trail := []\<rparr>" by (simp add: Body_def)
  have f1: "frame [] ?S = Inr (?S\<lparr>bodies := [?B\<lparr>trail := [(450, 300)]\<rparr>]\<rparr>)"
    using u[of "[]"] by (simp add: frame_def loop_body_def trail_append_def Body_def)
  have f2: "frame [] (?S\<lparr>bodies := [?B\<lparr>trail := [(450, 300)]\<rparr>]\<rparr>) = Inr ?S2"
    using u[of "[(450, 300)]"] by (simp add: frame_def loop_body_def trail_append_def Body_def)
  have m: "main_loop [[], []] ?S = Inr ?S2"
    using f1 f2 by simp
  have q: "quiet_frames [[], []] ?S"
    using f1 f2 by simp
  have e: "\<forall>b \<in> set (bodies ?S). trail b = []" by (simp add: Body_def)
  have h3: "handle_events [KEYDOWN K_LEFT] ?S2 = Inr (?S2\<lparr>camera_x := - 50, trail_reset := True\<rparr>)"
    by simp
  have f3: "frame [KEYDOWN K_LEFT] ?S2 = Inr ?S3"
    using u50[of "[(450, 300), (450, 300)]"]
    by (simp add: frame_def loop_body_def Body_def)
  have t3: "trail_reset (?S2\<lparr>camera_x := - 50, trail_reset := True\<rparr>)" by simp
  have c1: "\<forall>b \<in> set (bodies ?S2). length (trail b) = min (length [[], []::event list]) 200"
    using trail_length [of "[[], []]" ?S ?S2] e q m by blast
  have c2: "\<forall>b \<in> set (bodies ?S3). trail b = []"
    using trail_length [of _ ?S2 ?S3 "[KEYDOWN K_LEFT]" "?S2\<lparr>camera_x := - 50, trail_reset := True\<rparr>"]
      h3 t3 f3 by blast
  show ?thesis using m f3 c1 c2 by simp
qed

section \<open>The order of the updates within a frame\<close>

text \<open>
  The loop over \<open>[k..<n]\<close>: the bodies before \<open>k\<close> stay, and the body at each later
  index is updated against the list in which the bodies before it are already in
  their new state.
\<close>

lemma bodies_loop_upt:
  "bodies_loop [k..<n] s = Inr s' \<Longrightarrow> n = length (bodies s) \<Longrightarrow>
     take k (bodies s') = take k (bodies s)
   \<and> length (bodies s') = n
   \<and> (\<forall>i. k \<le> i \<and> i < n \<longrightarrow>
         (\<exists>b. update_position (zoomed s) (camera_x s) (camera_y s) i
                 (take i (bodies s') @ drop i (bodies s)) = Inr b
            \<and> bodies s' ! i = (if trail_reset s then b\<lparr>trail := []\<rparr> else b)))"
proof (induction "n - k" arbitrary: k s)
  case 0
  then have nk: "n \<le> k" by simp
  then have "[k..<n] = []" by simp
  with "0.prems"(1) have "s' = s" by simp
  then show ?case using nk "0.prems"(2) by auto
next
  case (Suc d)
  then have kn: "k < n" by simp
  then have up: "[k..<n] = k # [Suc k..<n]" by (rule upt_conv_Cons)
  from Suc.prems(1) obtain s1 where
    1: "loop_body k s = Inr s1" and 2: "bodies_loop [Suc k..<n] s1 = Inr s'"
    unfolding up by (auto split: sum.splits)
  from loop_body_eq[OF 1] obtain b where
    u: "update_position (zoomed s) (camera_x s) (camera_y s) k (bodies s) = Inr b"
    and s1: "s1 = s\<lparr>bodies := (bodies s)[k := (if trail_reset s then b\<lparr>trail := []\<rparr> else b)]\<rparr>"
    by blast
  have n1: "n = length (bodies s1)" using Suc.prems(2) by (simp add: s1)
  have d: "d = n - Suc k" using Suc.hyps(2) by simp
  note ih = Suc.hyps(1)[OF d 2 n1]
  have tS: "take (Suc k) (bodies s') = take (Suc k) (bodies s1)" using ih by blast
  have len: "length (bodies s') = n" using ih by blast
  have "take k (take (Suc k) (bodies s')) = take k (take (Suc k) (bodies s1))"
    using tS by simp
  then have "take k (bodies s') = take k (bodies s1)" by (simp add: min_def)
  then have tk: "take k (bodies s') = take k (bodies s)" by (simp add: s1)
  have "take (Suc k) (bodies s') ! k = take (Suc k) (bodies s1) ! k" using tS by simp
  then have "bodies s' ! k = bodies s1 ! k" by simp
  then have bk: "bodies s' ! k = (if trail_reset s then b\<lparr>trail := []\<rparr> else b)"
    using kn Suc.prems(2) by (simp add: s1)
  have each: "\<forall>i. k \<le> i \<and> i < n \<longrightarrow>
         (\<exists>b. update_position (zoomed s) (camera_x s) (camera_y s) i
                 (take i (bodies s') @ drop i (bodies s)) = Inr b
            \<and> bodies s' ! i = (if trail_reset s then b\<lparr>trail := []\<rparr> else b))"
  proof (intro allI impI)
    fix i assume i: "k \<le> i \<and> i < n"
    show "\<exists>b. update_position (zoomed s) (camera_x s) (camera_y s) i
                 (take i (bodies s') @ drop i (bodies s)) = Inr b
            \<and> bodies s' ! i = (if trail_reset s then b\<lparr>trail := []\<rparr> else b)"
    proof (cases "i = k")
      case True
      have "take k (bodies s') @ drop k (bodies s) = bodies s" using tk by simp
      then show ?thesis using True u bk by simp
    next
      case False
      then have ki: "Suc k \<le> i \<and> i < n" using i by simp
      have dr: "drop i (bodies s1) = drop i (bodies s)" using ki by (simp add: s1)
      from ih ki have "\<exists>b. update_position (zoomed s1) (camera_x s1) (camera_y s1) i
                 (take i (bodies s') @ drop i (bodies s1)) = Inr b
            \<and> bodies s' ! i = (if trail_reset s1 then b\<lparr>trail := []\<rparr> else b)"
        by blast
      then show ?thesis unfolding dr by (simp add: s1)
    qed
  qed
  show ?case using tk len each by blast
qed

text \<open>
  Two bodies on the x axis, 1000 m apart, the first one moving away at 1 m/s: the
  first update, the second update against the list before the frame, and the second
  update against the list after the first update.
\<close>

lemma sqrt_21160000: "sqrt 21160000 = 4600"
  using real_sqrt_abs[of 4600] by simp

lemma two_bodies_first:
  "update_position False 0 0 0
     [Body 0 0 (- 1) 0 (10 ^ 15) 1 (0, 0, 0) ''a'', Body 1000 0 0 0 1 1 (0, 0, 0) ''b'']
   = Inr ((Body (- 3600) 0 (- 1) 0 (10 ^ 15) 1 (0, 0, 0) ''a'')\<lparr>trail := [(449, 300)]\<rparr>)"
  by (simp add: update_position_def force_step_eq sqrt_1000000 Body_def truediv_def integrate_def
        Let_def DT_def trail_append_def
        screen_pos_def py_int_def current_scale_def SCALE_def WIDTH_def HEIGHT_def)

lemma two_bodies_second_snapshot:
  "update_position False 0 0 1
     [Body 0 0 (- 1) 0 (10 ^ 15) 1 (0, 0, 0) ''a'', Body 1000 0 0 0 1 1 (0, 0, 0) ''b'']
   = Inr ((Body 1000 0 0 0 1 1 (0, 0, 0) ''b'')\<lparr>trail := [(450, 300)]\<rparr>)"
  by (simp add: update_position_def force_step_eq sqrt_1000000 Body_def truediv_def integrate_def
        Let_def DT_def trail_append_def
        screen_pos_def py_int_def current_scale_def SCALE_def WIDTH_def HEIGHT_def)

lemma two_bodies_second_sequential:
  "update_position False 0 0 1
     [(Body (- 3600) 0 (- 1) 0 (10 ^ 15) 1 (0, 0, 0) ''a'')\<lparr>trail := [(449, 300)]\<rparr>,
      Body 1000 0 0 0 1 1 (0, 0, 0) ''b'']
   = Inr ((Body (1000 - 600687 / 52900 * 3600) 0 (- 600687 / 52900) 0 1 1 (0, 0, 0) ''b'')
            \<lparr>trail := [(449, 300)]\<rparr>)"
  by (simp add: update_position_def force_step_eq sqrt_21160000 Body_def truediv_def integrate_def
        Let_def DT_def trail_append_def G_def
        screen_pos_def py_int_def current_scale_def SCALE_def WIDTH_def HEIGHT_def)

text \<open>
  C1, as the code has it. The loop of a frame updates the bodies one after the other
  in the order of the list, and the call for the body at index \<open>i\<close> reads the list in
  which the bodies before \<open>i\<close> already have their new positions (\<open>take i\<close> of the list
  after the frame) and the bodies from \<open>i\<close> on still have the positions from the start
  of the frame (\<open>drop i\<close> of the list before the frame).
\<close>

theorem bodies_loop_sequential:
  assumes "bodies_loop [0..<length (bodies s)] s = Inr s'"
  shows "length (bodies s') = length (bodies s)
       \<and> (\<forall>i < length (bodies s).
            \<exists>b. update_position (zoomed s) (camera_x s) (camera_y s) i
                   (take i (bodies s') @ drop i (bodies s)) = Inr b
               \<and> bodies s' ! i = (if trail_reset s then b\<lparr>trail := []\<rparr> else b))"
  using bodies_loop_upt[OF assms refl] by simp

text \<open>The two bodies: the second update reads the moved first body.\<close>

theorem bodies_loop_sequential_witness:
  "bodies_loop [0..<length [Body 0 0 (- 1) 0 (10 ^ 15) 1 (0, 0, 0) ''a'', Body 1000 0 0 0 1 1 (0, 0, 0) ''b'']]
     \<lparr>bodies = [Body 0 0 (- 1) 0 (10 ^ 15) 1 (0, 0, 0) ''a'', Body 1000 0 0 0 1 1 (0, 0, 0) ''b''],
      zoomed = False, camera_x = 0, camera_y = 0, panning = False, last_mouse_pos = None,
      running = True, trail_reset = False\<rparr>
   = Inr \<lparr>bodies =
            [(Body (- 3600) 0 (- 1) 0 (10 ^ 15) 1 (0, 0, 0) ''a'')\<lparr>trail := [(449, 300)]\<rparr>,
             (Body (1000 - 600687 / 52900 * 3600) 0 (- 600687 / 52900) 0 1 1 (0, 0, 0) ''b'')
                \<lparr>trail := [(449, 300)]\<rparr>],
          zoomed = False, camera_x = 0, camera_y = 0, panning = False, last_mouse_pos = None,
          running = True, trail_reset = False\<rparr>
   \<and> update_position False 0 0 1
        [(Body (- 3600) 0 (- 1) 0 (10 ^ 15) 1 (0, 0, 0) ''a'')\<lparr>trail := [(449, 300)]\<rparr>,
         Body 1000 0 0 0 1 1 (0, 0, 0) ''b'']
     = Inr ((Body (1000 - 600687 / 52900 * 3600) 0 (- 600687 / 52900) 0 1 1 (0, 0, 0) ''b'')
                \<lparr>trail := [(449, 300)]\<rparr>)"
proof -
  let ?B0 = "Body 0 0 (- 1) 0 (10 ^ 15) 1 (0, 0, 0) ''a''"
  let ?B1 = "Body 1000 0 0 0 1 1 (0, 0, 0) ''b''"
  let ?C0 = "(Body (- 3600) 0 (- 1) 0 (10 ^ 15) 1 (0, 0, 0) ''a'')\<lparr>trail := [(449, 300)]\<rparr>"
  let ?C1 = "(Body (1000 - 600687 / 52900 * 3600) 0 (- 600687 / 52900) 0 1 1 (0, 0, 0) ''b'')
                \<lparr>trail := [(449, 300)]\<rparr>"
  let ?S = "\<lparr>bodies = [?B0, ?B1],
      zoomed = False, camera_x = 0, camera_y = 0, panning = False, last_mouse_pos = None,
      running = True, trail_reset = False\<rparr>"
  let ?S' = "\<lparr>bodies = [?C0, ?C1],
      zoomed = False, camera_x = 0, camera_y = 0, panning = False, last_mouse_pos = None,
      running = True, trail_reset = False\<rparr>"
  have l: "bodies_loop [0..<length (bodies ?S)] ?S = Inr ?S'"
    using two_bodies_first two_bodies_second_sequential
    by (simp add: loop_body_def upt_rec)
  note a = bodies_loop_sequential[OF l, THEN conjunct2, rule_format, of 1]
  have "\<exists>b. update_position (zoomed ?S) (camera_x ?S) (camera_y ?S) 1
               (take 1 (bodies ?S') @ drop 1 (bodies ?S)) = Inr b
          \<and> bodies ?S' ! 1 = (if trail_reset ?S then b\<lparr>trail := []\<rparr> else b)"
    by (rule a) simp
  then have u: "update_position False 0 0 1 [?C0, ?B1] = Inr ?C1" by simp
  show ?thesis using l u by simp
qed

text \<open>
  C1 as the spec states it fails. For the two bodies, the loop in the order \<open>[0, 1]\<close>
  and the loop in the order \<open>[1, 0]\<close> end in different states; the update of the
  second body against the positions from the start of the frame leaves it at rest at
  1000 m (the first body is at the distance floor), while the frame of the code
  gives it the velocity \<open>-600687/52900\<close> m/s, since it sees the first body at -3600 m.
\<close>

theorem snapshot_counterexample:
  "bodies_loop [0, 1]
     \<lparr>bodies = [Body 0 0 (- 1) 0 (10 ^ 15) 1 (0, 0, 0) ''a'', Body 1000 0 0 0 1 1 (0, 0, 0) ''b''],
      zoomed = False, camera_x = 0, camera_y = 0, panning = False, last_mouse_pos = None,
      running = True, trail_reset = False\<rparr>
   \<noteq> bodies_loop [1, 0]
     \<lparr>bodies = [Body 0 0 (- 1) 0 (10 ^ 15) 1 (0, 0, 0) ''a'', Body 1000 0 0 0 1 1 (0, 0, 0) ''b''],
      zoomed = False, camera_x = 0, camera_y = 0, panning = False, last_mouse_pos = None,
      running = True, trail_reset = False\<rparr>
   \<and> update_position False 0 0 1
        [Body 0 0 (- 1) 0 (10 ^ 15) 1 (0, 0, 0) ''a'', Body 1000 0 0 0 1 1 (0, 0, 0) ''b'']
       = Inr ((Body 1000 0 0 0 1 1 (0, 0, 0) ''b'')\<lparr>trail := [(450, 300)]\<rparr>)
   \<and> bodies_loop [0..<2]
     \<lparr>bodies = [Body 0 0 (- 1) 0 (10 ^ 15) 1 (0, 0, 0) ''a'', Body 1000 0 0 0 1 1 (0, 0, 0) ''b''],
      zoomed = False, camera_x = 0, camera_y = 0, panning = False, last_mouse_pos = None,
      running = True, trail_reset = False\<rparr>
   = Inr \<lparr>bodies =
            [(Body (- 3600) 0 (- 1) 0 (10 ^ 15) 1 (0, 0, 0) ''a'')\<lparr>trail := [(449, 300)]\<rparr>,
             (Body (1000 - 600687 / 52900 * 3600) 0 (- 600687 / 52900) 0 1 1 (0, 0, 0) ''b'')
                \<lparr>trail := [(449, 300)]\<rparr>],
          zoomed = False, camera_x = 0, camera_y = 0, panning = False, last_mouse_pos = None,
          running = True, trail_reset = False\<rparr>
   \<and> (Body (1000 - 600687 / 52900 * 3600) 0 (- 600687 / 52900) 0 1 1 (0, 0, 0) ''b'')
                \<lparr>trail := [(449, 300)]\<rparr>
       \<noteq> (Body 1000 0 0 0 1 1 (0, 0, 0) ''b'')\<lparr>trail := [(450, 300)]\<rparr>"
proof -
  let ?B0 = "Body 0 0 (- 1) 0 (10 ^ 15) 1 (0, 0, 0) ''a''"
  let ?B1 = "Body 1000 0 0 0 1 1 (0, 0, 0) ''b''"
  let ?C0 = "(Body (- 3600) 0 (- 1) 0 (10 ^ 15) 1 (0, 0, 0) ''a'')\<lparr>trail := [(449, 300)]\<rparr>"
  let ?C1 = "(Body (1000 - 600687 / 52900 * 3600) 0 (- 600687 / 52900) 0 1 1 (0, 0, 0) ''b'')
                \<lparr>trail := [(449, 300)]\<rparr>"
  let ?D1 = "(Body 1000 0 0 0 1 1 (0, 0, 0) ''b'')\<lparr>trail := [(450, 300)]\<rparr>"
  let ?S = "\<lparr>bodies = [?B0, ?B1],
      zoomed = False, camera_x = 0, camera_y = 0, panning = False, last_mouse_pos = None,
      running = True, trail_reset = False\<rparr>"
  have rev0: "update_position False 0 0 0 [?B0, ?D1] = Inr ?C0"
    by (simp add: update_position_def force_step_eq sqrt_1000000 Body_def truediv_def integrate_def
        Let_def DT_def trail_append_def
        screen_pos_def py_int_def current_scale_def SCALE_def WIDTH_def HEIGHT_def)
  have fwd: "bodies_loop [0, 1] ?S = Inr (?S\<lparr>bodies := [?C0, ?C1]\<rparr>)"
    using two_bodies_first two_bodies_second_sequential
    by (simp add: loop_body_def)
  have bwd: "bodies_loop [1, 0] ?S = Inr (?S\<lparr>bodies := [?C0, ?D1]\<rparr>)"
    using two_bodies_second_snapshot rev0
    by (simp add: loop_body_def)
  have ne: "?C1 \<noteq> ?D1" by (simp add: Body_def)
  have d: "bodies_loop [0, 1] ?S \<noteq> bodies_loop [1, 0] ?S"
    unfolding fwd bwd using ne by simp
  have u: "[0..<2] = [0, Suc 0]" by (simp add: upt_rec)
  have f2: "bodies_loop [0..<2] ?S = Inr (?S\<lparr>bodies := [?C0, ?C1]\<rparr>)"
    unfolding u using fwd by simp
  show ?thesis using d two_bodies_second_snapshot f2 ne by simp
qed

end
